theory Spec2Isabelle
  imports Main "HOL-Library.Word"
begin

section \<open>The buffered single-request client of \<open>src/net/curl_shim.c\<close>\<close>

text \<open>
  The file is a thin binding over libcurl plus two pieces of logic of its own: the
  accumulating write callback \<open>write_cb\<close> and the one-shot routine
  \<open>curl_shim_simple_request\<close>. Both are embedded below, statement by statement.
  What they call but do not define is made explicit:
  \<^item> the C heap (\<open>malloc\<close>, \<open>realloc\<close>, \<open>free\<close>, \<open>memcpy\<close>, \<open>strlen\<close>): a store of
    live blocks; every request may be refused, as decided by a list of outcomes
    carried in the state; bytes never written are indeterminate; undefined
    behaviour is a \<open>fault\<close>;
  \<^item> libcurl (\<open>curl_easy_init\<close>, \<open>curl_easy_setopt\<close>, \<open>curl_easy_perform\<close>,
    \<open>curl_easy_getinfo\<close>, \<open>curl_easy_cleanup\<close>, \<open>curl_slist_*\<close>): a table of live
    handles with their options, and a network that answers each request with the
    body chunks it delivers, the code the transfer ends with and an HTTP status.
  Integers follow the LP64 data model of the Linux targets: \<open>size_t\<close> and \<open>long\<close>
  are 64 bits wide, \<open>long\<close> being read as two's complement.
\<close>

subsection \<open>Data\<close>

type_synonym byte = "8 word"
type_synonym size_t = "64 word"
type_synonym long = "64 word"
type_synonym addr = nat
type_synonym cell = "byte option"
type_synonym CURLcode = int

abbreviation (input) NULL :: addr where "NULL \<equiv> 0"

abbreviation (input) CURLE_OK :: CURLcode where "CURLE_OK \<equiv> 0"
abbreviation (input) CURLE_FAILED_INIT :: CURLcode where "CURLE_FAILED_INIT \<equiv> 2"
abbreviation (input) CURLE_WRITE_ERROR :: CURLcode where "CURLE_WRITE_ERROR \<equiv> 23"
abbreviation (input) CURLE_BAD_FUNCTION_ARGUMENT :: CURLcode where "CURLE_BAD_FUNCTION_ARGUMENT \<equiv> 43"

abbreviation (input) CURL_HTTP_VERSION_1_1 :: long where "CURL_HTTP_VERSION_1_1 \<equiv> 2"

text \<open>Undefined behaviour of the C program, as a value.\<close>

datatype fault =
    InvalidPointer   \<comment> \<open>a pointer that is not a live allocation is dereferenced or released\<close>
  | OutOfBounds      \<comment> \<open>an access past the end of an object\<close>
  | ZeroSize         \<comment> \<open>\<open>realloc\<close> of a live block to size 0\<close>
  | Unterminated     \<comment> \<open>\<open>strlen\<close> of an object that holds no zero byte\<close>

text \<open>\<open>typedef struct { char *data; size_t size; } Buffer;\<close>\<close>

record Buffer =
  data :: addr
  size_f :: size_t

text \<open>The caller's variables behind \<open>char **response\<close> and \<open>size_t *response_len\<close>.\<close>

record outs =
  response :: addr
  response_len :: size_t

datatype CURLoption =
    CURLOPT_URL | CURLOPT_CUSTOMREQUEST | CURLOPT_HTTPHEADER
  | CURLOPT_POSTFIELDS | CURLOPT_POSTFIELDSIZE
  | CURLOPT_WRITEFUNCTION | CURLOPT_WRITEDATA
  | CURLOPT_NOSIGNAL | CURLOPT_HTTP_VERSION
  | CURLOPT_SSL_VERIFYPEER | CURLOPT_SSL_VERIFYHOST

text \<open>
  The third argument of \<open>curl_easy_setopt\<close>: a C string, a pointer to an object in
  the caller's memory (given by the object's bytes), a header list, a \<open>long\<close>, the
  function \<open>write_cb\<close>, or the address of the local \<open>Buffer\<close>.
\<close>

datatype optval =
    V_str string | V_mem "byte list" | V_slist addr | V_long long | V_write_cb | V_buf

datatype CURLINFO = CURLINFO_RESPONSE_CODE | CURLINFO_HTTP_CONNECTCODE

text \<open>An easy handle: the options set on it and what the last transfer left.\<close>

record easy =
  opt_url :: "string option"
  opt_customrequest :: "string option"
  opt_httpheader :: addr
  opt_postfields :: "byte list option"
  opt_postfieldsize :: long
  opt_writefunction :: bool
  opt_writedata :: bool
  opt_nosignal :: long
  opt_http_version :: long
  opt_ssl_verifypeer :: long
  opt_ssl_verifyhost :: long
  info_response_code :: long
  info_connect_code :: long

text \<open>What goes out on the wire for one transfer.\<close>

record wire =
  w_url :: "string option"
  w_method :: "string option"
  w_headers :: "string list"
  w_body :: "byte list option"

text \<open>
  What comes back: the body chunks handed to the write callback in order, the code
  \<open>curl_easy_perform\<close> ends with when every chunk is accepted, and the HTTP status.
\<close>

record exchange =
  chunks :: "byte list list"
  outcome :: CURLcode
  http_status :: long

type_synonym network = "wire \<Rightarrow> exchange"

datatype event =
    Ev_easy_init addr
  | Ev_perform addr wire CURLcode
  | Ev_cleanup addr
  | Ev_slist_free_all addr

text \<open>
  The state outside the function: live heap blocks, live easy handles, live header
  lists, the highest address handed out so far, the outcomes of the coming
  allocation requests and handle acquisitions (\<open>False\<close>: refused; past the end of
  the list every request is granted), and the calls made into libcurl so far.
\<close>

record world =
  blocks :: "addr \<rightharpoonup> cell list"
  handles :: "addr \<rightharpoonup> easy"
  slists :: "addr \<rightharpoonup> string list"
  brk :: addr
  grants :: "bool list"
  init_grants :: "bool list"
  trace :: "event list"

subsection \<open>The C heap\<close>

definition refused :: "bool list \<Rightarrow> bool" where
  "refused os = (case os of [] \<Rightarrow> False | b # _ \<Rightarrow> \<not> b)"

definition malloc :: "world \<Rightarrow> nat \<Rightarrow> addr \<times> world" where
  "malloc w n =
     (if refused (grants w) then (NULL, w\<lparr>grants := tl (grants w)\<rparr>)
      else (Suc (brk w),
            w\<lparr>blocks := (blocks w)(Suc (brk w) \<mapsto> replicate n None),
              brk := Suc (brk w), grants := tl (grants w)\<rparr>))"

text \<open>
  \<open>realloc\<close>: a null pointer makes it \<open>malloc\<close>; on refusal the old block stays as it
  is; on success the old block is released and the new one starts with the old
  contents, the rest indeterminate.
\<close>

definition realloc :: "world \<Rightarrow> addr \<Rightarrow> nat \<Rightarrow> fault + (addr \<times> world)" where
  "realloc w p n =
     (if p = NULL then Inr (malloc w n)
      else (case blocks w p of
              None \<Rightarrow> Inl InvalidPointer
            | Some old \<Rightarrow>
                if n = 0 then Inl ZeroSize
                else if refused (grants w) then Inr (NULL, w\<lparr>grants := tl (grants w)\<rparr>)
                else Inr (Suc (brk w),
                          w\<lparr>blocks := ((blocks w)(p := None))
                                (Suc (brk w) \<mapsto> take n old @ replicate (n - length old) None),
                            brk := Suc (brk w), grants := tl (grants w)\<rparr>)))"

definition free :: "world \<Rightarrow> addr \<Rightarrow> fault + world" where
  "free w p =
     (if p = NULL then Inr w
      else (case blocks w p of
              None \<Rightarrow> Inl InvalidPointer
            | Some _ \<Rightarrow> Inr (w\<lparr>blocks := (blocks w)(p := None)\<rparr>)))"

text \<open>\<open>memcpy(&dst[off], src, n)\<close>, the source being an object outside the heap.\<close>

definition memcpy :: "world \<Rightarrow> addr \<Rightarrow> nat \<Rightarrow> byte list \<Rightarrow> nat \<Rightarrow> fault + world" where
  "memcpy w dst off src n =
     (case blocks w dst of
        None \<Rightarrow> Inl InvalidPointer
      | Some blk \<Rightarrow>
          if length src < n \<or> length blk < off + n then Inl OutOfBounds
          else Inr (w\<lparr>blocks := (blocks w)
                      (dst \<mapsto> take off blk @ map Some (take n src) @ drop (off + n) blk)\<rparr>))"

text \<open>\<open>p[i] = v\<close>\<close>

definition store :: "world \<Rightarrow> addr \<Rightarrow> nat \<Rightarrow> byte \<Rightarrow> fault + world" where
  "store w p i v =
     (case blocks w p of
        None \<Rightarrow> Inl InvalidPointer
      | Some blk \<Rightarrow>
          if length blk \<le> i then Inl OutOfBounds
          else Inr (w\<lparr>blocks := (blocks w)(p \<mapsto> blk[i := Some v])\<rparr>))"

definition strlen :: "byte list \<Rightarrow> fault + size_t" where
  "strlen bs =
     (if 0 \<in> set bs then Inr (of_nat (length (takeWhile (\<lambda>b. b \<noteq> 0) bs)))
      else Inl Unterminated)"

subsection \<open>The write callback\<close>

definition write_cb ::
  "world \<Rightarrow> byte list \<Rightarrow> size_t \<Rightarrow> size_t \<Rightarrow> Buffer \<Rightarrow> fault + (size_t \<times> Buffer \<times> world)" where
  "write_cb w ptr sz nmemb mem =
     (let realsize = sz * nmemb in
      case realloc w (data mem) (unat (size_f mem + realsize + 1)) of
        Inl f \<Rightarrow> Inl f
      | Inr (ptr_new, w1) \<Rightarrow>
          if ptr_new = NULL then Inr (0, mem, w1)
          else
            let mem1 = mem\<lparr>data := ptr_new\<rparr> in
            case memcpy w1 (data mem1) (unat (size_f mem1)) ptr (unat realsize) of
              Inl f \<Rightarrow> Inl f
            | Inr w2 \<Rightarrow>
                let mem2 = mem1\<lparr>size_f := size_f mem1 + realsize\<rparr> in
                case store w2 (data mem2) (unat (size_f mem2)) 0 of
                  Inl f \<Rightarrow> Inl f
                | Inr w3 \<Rightarrow> Inr (realsize, mem2, w3))"

subsection \<open>libcurl\<close>

text \<open>
  A handle as \<open>curl_easy_init\<close> returns it: no URL, no method override, no headers, no
  body, body size \<open>-1\<close> (unknown), the default sink, peer and host verification on.
\<close>

definition easy_default :: easy where
  "easy_default =
     \<lparr>opt_url = None, opt_customrequest = None, opt_httpheader = NULL,
      opt_postfields = None, opt_postfieldsize = - 1,
      opt_writefunction = False, opt_writedata = False,
      opt_nosignal = 0, opt_http_version = 0,
      opt_ssl_verifypeer = 1, opt_ssl_verifyhost = 2,
      info_response_code = 0, info_connect_code = 0\<rparr>"

definition curl_easy_init :: "world \<Rightarrow> addr \<times> world" where
  "curl_easy_init w =
     (if refused (init_grants w)
      then (NULL, w\<lparr>init_grants := tl (init_grants w), trace := trace w @ [Ev_easy_init NULL]\<rparr>)
      else (Suc (brk w),
            w\<lparr>handles := (handles w)(Suc (brk w) \<mapsto> easy_default),
              brk := Suc (brk w), init_grants := tl (init_grants w),
              trace := trace w @ [Ev_easy_init (Suc (brk w))]\<rparr>))"

text \<open>
  One option on one handle; \<open>None\<close> when libcurl rejects the value
  (a body size below \<open>-1\<close>, or a value of the wrong kind for the option).
\<close>

fun set_option :: "easy \<Rightarrow> CURLoption \<Rightarrow> optval \<Rightarrow> easy option" where
  "set_option e CURLOPT_URL (V_str s) = Some (e\<lparr>opt_url := Some s\<rparr>)"
| "set_option e CURLOPT_CUSTOMREQUEST (V_str s) = Some (e\<lparr>opt_customrequest := Some s\<rparr>)"
| "set_option e CURLOPT_HTTPHEADER (V_slist l) = Some (e\<lparr>opt_httpheader := l\<rparr>)"
| "set_option e CURLOPT_POSTFIELDS (V_mem bs) = Some (e\<lparr>opt_postfields := Some bs\<rparr>)"
| "set_option e CURLOPT_POSTFIELDSIZE (V_long n) =
     (if sint n < - 1 then None else Some (e\<lparr>opt_postfieldsize := n\<rparr>))"
| "set_option e CURLOPT_WRITEFUNCTION V_write_cb = Some (e\<lparr>opt_writefunction := True\<rparr>)"
| "set_option e CURLOPT_WRITEDATA V_buf = Some (e\<lparr>opt_writedata := True\<rparr>)"
| "set_option e CURLOPT_NOSIGNAL (V_long n) = Some (e\<lparr>opt_nosignal := n\<rparr>)"
| "set_option e CURLOPT_HTTP_VERSION (V_long n) = Some (e\<lparr>opt_http_version := n\<rparr>)"
| "set_option e CURLOPT_SSL_VERIFYPEER (V_long n) = Some (e\<lparr>opt_ssl_verifypeer := n\<rparr>)"
| "set_option e CURLOPT_SSL_VERIFYHOST (V_long n) = Some (e\<lparr>opt_ssl_verifyhost := n\<rparr>)"
| "set_option e _ _ = None"

definition curl_easy_setopt :: "world \<Rightarrow> addr \<Rightarrow> CURLoption \<Rightarrow> optval \<Rightarrow> CURLcode \<times> world" where
  "curl_easy_setopt w h opt v =
     (case handles w h of
        None \<Rightarrow> (CURLE_BAD_FUNCTION_ARGUMENT, w)
      | Some e \<Rightarrow>
          (case set_option e opt v of
             None \<Rightarrow> (CURLE_BAD_FUNCTION_ARGUMENT, w)
           | Some e' \<Rightarrow> (CURLE_OK, w\<lparr>handles := (handles w)(h \<mapsto> e')\<rparr>)))"

text \<open>
  The body libcurl sends for a handle: none without \<open>CURLOPT_POSTFIELDS\<close>; with it,
  \<open>CURLOPT_POSTFIELDSIZE\<close> bytes from the pointer, or, the size being \<open>-1\<close>, the bytes
  up to the first zero byte.
\<close>

definition body_of :: "easy \<Rightarrow> byte list option" where
  "body_of e =
     (case opt_postfields e of
        None \<Rightarrow> None
      | Some bs \<Rightarrow>
          Some (if sint (opt_postfieldsize e) < 0 then takeWhile (\<lambda>b. b \<noteq> 0) bs
                else take (nat (sint (opt_postfieldsize e))) bs))"

definition wire_of :: "world \<Rightarrow> easy \<Rightarrow> wire" where
  "wire_of w e =
     \<lparr>w_url = opt_url e, w_method = opt_customrequest e,
      w_headers = (case slists w (opt_httpheader e) of None \<Rightarrow> [] | Some hs \<Rightarrow> hs),
      w_body = body_of e\<rparr>"

text \<open>
  The transfer loop: each chunk goes to \<open>write_cb\<close> with \<open>size = 1\<close> and
  \<open>nmemb\<close> the chunk's length; a return value other than that length ends the
  transfer. The result lists what the calls returned and says whether every chunk
  was accepted.
\<close>

fun deliver ::
  "world \<Rightarrow> Buffer \<Rightarrow> byte list list \<Rightarrow> fault + (size_t list \<times> bool \<times> Buffer \<times> world)" where
  "deliver w mem [] = Inr ([], True, mem, w)"
| "deliver w mem (c # cs) =
     (case write_cb w c 1 (of_nat (length c)) mem of
        Inl f \<Rightarrow> Inl f
      | Inr (r, mem1, w1) \<Rightarrow>
          if r \<noteq> of_nat (length c) then Inr ([r], False, mem1, w1)
          else (case deliver w1 mem1 cs of
                  Inl f \<Rightarrow> Inl f
                | Inr (rs, ok, mem2, w2) \<Rightarrow> Inr (r # rs, ok, mem2, w2)))"

text \<open>
  \<open>curl_easy_perform\<close> on a handle whose \<open>CURLOPT_WRITEDATA\<close>, if set, points to
  \<open>ud\<close>: the request is sent, the answer is delivered to the sink, the status is
  left on the handle, and the call is logged with the code it returns. A header
  list or a body that is not there to be read is a fault, and so is \<open>write_cb\<close>
  installed without its \<open>Buffer\<close>; without \<open>write_cb\<close> the body goes to libcurl's
  default sink and \<open>ud\<close> is not touched.
\<close>

definition unreadable :: "world \<Rightarrow> easy \<Rightarrow> fault option" where
  "unreadable w e =
     (if opt_httpheader e \<noteq> NULL \<and> slists w (opt_httpheader e) = None then Some InvalidPointer
      else (case opt_postfields e of
              None \<Rightarrow> None
            | Some bs \<Rightarrow>
                if sint (opt_postfieldsize e) < 0
                then (if 0 \<in> set bs then None else Some Unterminated)
                else (if length bs < nat (sint (opt_postfieldsize e)) then Some OutOfBounds
                      else None)))"

definition curl_easy_perform ::
  "network \<Rightarrow> world \<Rightarrow> addr \<Rightarrow> Buffer \<Rightarrow> fault + (CURLcode \<times> Buffer \<times> world)" where
  "curl_easy_perform net w h ud =
     (case handles w h of
        None \<Rightarrow> Inr (CURLE_BAD_FUNCTION_ARGUMENT, ud, w)
      | Some e \<Rightarrow>
          (case unreadable w e of
             Some f \<Rightarrow> Inl f
           | None \<Rightarrow>
               let req = wire_of w e; x = net req in
               (case (if opt_writefunction e
                      then (if opt_writedata e then deliver w ud (chunks x)
                            else Inl InvalidPointer)
                      else Inr ([], True, ud, w)) of
                  Inl f \<Rightarrow> Inl f
                | Inr (rs, ok, ud', w1) \<Rightarrow>
                    let res = (if ok then outcome x else CURLE_WRITE_ERROR) in
                    Inr (res, ud',
                         w1\<lparr>handles := (handles w1)(h \<mapsto> e\<lparr>info_response_code := http_status x\<rparr>),
                            trace := trace w1 @ [Ev_perform h req res]\<rparr>))))"

definition curl_easy_cleanup :: "world \<Rightarrow> addr \<Rightarrow> world" where
  "curl_easy_cleanup w h = w\<lparr>handles := (handles w)(h := None), trace := trace w @ [Ev_cleanup h]\<rparr>"

text \<open>
  \<open>curl_easy_getinfo\<close> for the two \<open>long\<close> values modelled: a null handle is refused
  with \<open>CURLE_BAD_FUNCTION_ARGUMENT\<close> and nothing is stored; a handle that is not live
  (released, or never acquired) is a use after free.
\<close>

definition curl_easy_getinfo :: "world \<Rightarrow> addr \<Rightarrow> CURLINFO \<Rightarrow> fault + (CURLcode \<times> long option)" where
  "curl_easy_getinfo w h info =
     (if h = NULL then Inr (CURLE_BAD_FUNCTION_ARGUMENT, None)
      else (case handles w h of
              None \<Rightarrow> Inl InvalidPointer
            | Some e \<Rightarrow>
                Inr (CURLE_OK, Some (case info of
                                        CURLINFO_RESPONSE_CODE \<Rightarrow> info_response_code e
                                      | CURLINFO_HTTP_CONNECTCODE \<Rightarrow> info_connect_code e))))"

definition curl_slist_free_all :: "world \<Rightarrow> addr \<Rightarrow> fault + world" where
  "curl_slist_free_all w l =
     (if l \<noteq> NULL \<and> slists w l = None then Inl InvalidPointer
      else Inr (w\<lparr>slists := (slists w)(l := None), trace := trace w @ [Ev_slist_free_all l]\<rparr>))"

subsection \<open>The pass-through calls\<close>

definition curl_shim_getinfo_long ::
  "world \<Rightarrow> addr \<Rightarrow> CURLINFO \<Rightarrow> fault + (CURLcode \<times> long option)" where
  "curl_shim_getinfo_long w handle info = curl_easy_getinfo w handle info"

definition curl_shim_slist_free_all :: "world \<Rightarrow> addr \<Rightarrow> fault + world" where
  "curl_shim_slist_free_all w l = curl_slist_free_all w l"

subsection \<open>The one-shot request\<close>

text \<open>
  \<open>url\<close> and \<open>method\<close> are C strings, \<open>payload\<close> is null or points to an object with
  the given bytes, \<open>headers\<close> is null or a header list, \<open>out\<close> holds the caller's two
  result variables. The codes \<open>curl_easy_setopt\<close> returns are dropped, as in the
  source; \<open>(long)strlen(payload)\<close> keeps the 64 bits of the \<open>size_t\<close>.
\<close>

definition curl_shim_simple_request ::
  "network \<Rightarrow> world \<Rightarrow> string \<Rightarrow> string \<Rightarrow> byte list option \<Rightarrow> addr \<Rightarrow> outs
     \<Rightarrow> fault + (CURLcode \<times> outs \<times> world)" where
  "curl_shim_simple_request net w url method payload headers out =
     (case curl_easy_init w of (curl, w0) \<Rightarrow>
      if curl = NULL then Inr (CURLE_FAILED_INIT, out, w0)
      else
        (case malloc w0 1 of (p, w1) \<Rightarrow>
         let buf = \<lparr>data = p, size_f = 0\<rparr>;
             w2 = snd (curl_easy_setopt w1 curl CURLOPT_URL (V_str url));
             w3 = snd (curl_easy_setopt w2 curl CURLOPT_CUSTOMREQUEST (V_str method));
             w4 = (if headers \<noteq> NULL
                   then snd (curl_easy_setopt w3 curl CURLOPT_HTTPHEADER (V_slist headers))
                   else w3)
         in
         (case (case payload of
                  None \<Rightarrow> Inr w4
                | Some bs \<Rightarrow>
                    (let w5 = snd (curl_easy_setopt w4 curl CURLOPT_POSTFIELDS (V_mem bs)) in
                     case strlen bs of
                       Inl f \<Rightarrow> Inl f
                     | Inr n \<Rightarrow>
                         Inr (snd (curl_easy_setopt w5 curl CURLOPT_POSTFIELDSIZE (V_long n))))) of
            Inl f \<Rightarrow> Inl f
          | Inr w6 \<Rightarrow>
              let w7 = snd (curl_easy_setopt w6 curl CURLOPT_WRITEFUNCTION V_write_cb);
                  w8 = snd (curl_easy_setopt w7 curl CURLOPT_WRITEDATA V_buf);
                  w9 = snd (curl_easy_setopt w8 curl CURLOPT_NOSIGNAL (V_long 1));
                  w10 = snd (curl_easy_setopt w9 curl CURLOPT_HTTP_VERSION
                               (V_long CURL_HTTP_VERSION_1_1));
                  w11 = snd (curl_easy_setopt w10 curl CURLOPT_SSL_VERIFYPEER (V_long 1));
                  w12 = snd (curl_easy_setopt w11 curl CURLOPT_SSL_VERIFYHOST (V_long 2))
              in
              (case curl_easy_perform net w12 curl buf of
                 Inl f \<Rightarrow> Inl f
               | Inr (res, buf', w13) \<Rightarrow>
                   (case (if res = CURLE_OK
                          then Inr (out\<lparr>response := data buf', response_len := size_f buf'\<rparr>, w13)
                          else (case free w13 (data buf') of
                                  Inl f \<Rightarrow> Inl f
                                | Inr w14 \<Rightarrow> Inr (out, w14))) of
                      Inl f \<Rightarrow> Inl f
                    | Inr (out', w15) \<Rightarrow> Inr (res, out', curl_easy_cleanup w15 curl))))))"

section \<open>Notions used to state and prove the properties\<close>

subsection \<open>Conditions on the surroundings\<close>

text \<open>Every coming request is granted.\<close>

definition granted :: "bool list \<Rightarrow> bool" where
  "granted os \<longleftrightarrow> (\<forall>b\<in>set os. b)"

text \<open>No address above the highest one handed out is in use.\<close>

definition fresh :: "world \<Rightarrow> bool" where
  "fresh w \<longleftrightarrow> (\<forall>a>brk w. blocks w a = None \<and> handles w a = None \<and> slists w a = None)"

text \<open>
  Whatever is asked, the body the network delivers, with one byte more, stays below
  \<open>2 ^ 64\<close> bytes: it fits the address space the buffer lives in.
\<close>

definition bounded :: "network \<Rightarrow> bool" where
  "bounded net \<longleftrightarrow> (\<forall>r. sum_list (map length (chunks (net r))) + 1 < 2 ^ 64)"

text \<open>
  The arguments are what their C types promise: \<open>payload\<close> is null or points to an
  object that holds a zero byte; \<open>headers\<close> is null or a live header list.
\<close>

definition c_string :: "byte list option \<Rightarrow> bool" where
  "c_string s \<longleftrightarrow> (case s of None \<Rightarrow> True | Some bs \<Rightarrow> 0 \<in> set bs)"

definition header_list :: "world \<Rightarrow> addr \<Rightarrow> bool" where
  "header_list w l \<longleftrightarrow> l = NULL \<or> slists w l \<noteq> None"

text \<open>
  An accumulator the sink can be called on: a null pointer with length 0 (the initial
  allocation was refused), or a live block with room past the recorded length, the
  block being an object of the address space.
\<close>

definition accumulator :: "world \<Rightarrow> Buffer \<Rightarrow> bool" where
  "accumulator w mem \<longleftrightarrow>
     (if data mem = NULL then size_f mem = 0
      else (case blocks w (data mem) of
              None \<Rightarrow> False
            | Some blk \<Rightarrow> unat (size_f mem) < length blk \<and> length blk < 2 ^ 64))"

subsection \<open>Concrete surroundings\<close>

text \<open>An empty world, and a network that gives every request the same answer.\<close>

definition world0 :: world where
  "world0 =
     \<lparr>blocks = Map.empty, handles = Map.empty, slists = Map.empty, brk = 0,
      grants = [], init_grants = [], trace = []\<rparr>"

definition answer :: "byte list list \<Rightarrow> CURLcode \<Rightarrow> long \<Rightarrow> network" where
  "answer cs code st r = \<lparr>chunks = cs, outcome = code, http_status = st\<rparr>"

definition out0 :: outs where
  "out0 = \<lparr>response = 77, response_len = 99\<rparr>"

subsection \<open>The accumulator's invariant\<close>

text \<open>
  \<open>holds B w mem content\<close>: apart from the accumulator's block the heap is \<open>B\<close>; the
  block, if there is one, starts with \<open>content\<close> and has room for more; the recorded
  length is that of \<open>content\<close>.
\<close>

definition holds :: "(addr \<rightharpoonup> cell list) \<Rightarrow> world \<Rightarrow> Buffer \<Rightarrow> byte list \<Rightarrow> bool" where
  "holds B w mem content \<longleftrightarrow>
     unat (size_f mem) = length content \<and> (\<forall>a>brk w. B a = None) \<and> data mem \<le> brk w \<and>
     (if data mem = NULL then blocks w = B \<and> content = []
      else B (data mem) = None \<and>
           (\<exists>rest. rest \<noteq> [] \<and> blocks w = B(data mem \<mapsto> map Some content @ rest)))"

text \<open>What a run of the transfer loop over \<open>cs\<close> leaves, started where \<open>holds\<close> held.\<close>

definition delivered ::
  "(addr \<rightharpoonup> cell list) \<Rightarrow> world \<Rightarrow> byte list \<Rightarrow> byte list list
     \<Rightarrow> size_t list \<times> bool \<times> Buffer \<times> world \<Rightarrow> bool" where
  "delivered B w content cs r \<longleftrightarrow>
     (case r of (rs, ok, mem', w') \<Rightarrow>
        \<exists>content'.
          holds B w' mem' content' \<and>
          handles w' = handles w \<and> slists w' = slists w \<and>
          init_grants w' = init_grants w \<and> trace w' = trace w \<and> brk w \<le> brk w' \<and>
          (ok \<longrightarrow> content' = content @ concat cs) \<and>
          (granted (grants w) \<longrightarrow>
             ok \<and> rs = map (\<lambda>c. of_nat (length c)) cs \<and> granted (grants w') \<and>
             (cs \<noteq> [] \<longrightarrow> data mem' \<noteq> NULL \<and>
                blocks w' = B(data mem' \<mapsto> map Some content' @ [Some 0]))))"

subsection \<open>The two halves of the one-shot request\<close>

text \<open>The options the handle carries when \<open>curl_easy_perform\<close> is called.\<close>

definition configured :: "string \<Rightarrow> string \<Rightarrow> byte list option \<Rightarrow> addr \<Rightarrow> easy" where
  "configured url method payload headers =
     easy_default
       \<lparr>opt_url := Some url, opt_customrequest := Some method, opt_httpheader := headers,
        opt_postfields := payload,
        opt_postfieldsize :=
          (case payload of
             None \<Rightarrow> - 1
           | Some bs \<Rightarrow>
               if sint (of_nat (length (takeWhile (\<lambda>b. b \<noteq> 0) bs)) :: long) < - 1 then - 1
               else of_nat (length (takeWhile (\<lambda>b. b \<noteq> 0) bs))),
        opt_writefunction := True, opt_writedata := True,
        opt_nosignal := 1, opt_http_version := CURL_HTTP_VERSION_1_1\<rparr>"

text \<open>The statements after \<open>curl_easy_perform\<close>, as a function of what it returned.\<close>

definition conclude ::
  "outs \<Rightarrow> addr \<Rightarrow> fault + (CURLcode \<times> Buffer \<times> world) \<Rightarrow> fault + (CURLcode \<times> outs \<times> world)" where
  "conclude out curl r =
     (case r of
        Inl f \<Rightarrow> Inl f
      | Inr (res, buf', w13) \<Rightarrow>
          (case (if res = CURLE_OK
                 then Inr (out\<lparr>response := data buf', response_len := size_f buf'\<rparr>, w13)
                 else (case free w13 (data buf') of
                         Inl f \<Rightarrow> Inl f
                       | Inr w14 \<Rightarrow> Inr (out, w14))) of
             Inl f \<Rightarrow> Inl f
           | Inr (out', w15) \<Rightarrow> Inr (res, out', curl_easy_cleanup w15 curl)))"

text \<open>
  The request that goes out, the world in which \<open>curl_easy_perform\<close> is called, and the
  function's result in terms of what the transfer loop left (\<open>ok\<close>: every chunk was
  accepted; \<open>mem'\<close> and \<open>wd\<close>: the accumulator and the world after the loop).
\<close>

definition request_of :: "world \<Rightarrow> string \<Rightarrow> string \<Rightarrow> byte list option \<Rightarrow> addr \<Rightarrow> wire" where
  "request_of w url method payload headers = wire_of w (configured url method payload headers)"

definition armed :: "world \<Rightarrow> string \<Rightarrow> string \<Rightarrow> byte list option \<Rightarrow> addr \<Rightarrow> world" where
  "armed w url method payload headers =
     (snd (malloc (snd (curl_easy_init w)) 1))
       \<lparr>handles := (handles w)(Suc (brk w) \<mapsto> configured url method payload headers)\<rparr>"

definition result_of ::
  "world \<Rightarrow> outs \<Rightarrow> wire \<Rightarrow> CURLcode \<Rightarrow> bool \<Rightarrow> Buffer \<Rightarrow> world \<Rightarrow> CURLcode \<times> outs \<times> world" where
  "result_of w out req code ok mem' wd =
     (if ok \<and> code = CURLE_OK
      then (CURLE_OK, out\<lparr>response := data mem', response_len := size_f mem'\<rparr>,
            wd\<lparr>handles := handles w,
               trace := trace w @
                 [Ev_easy_init (Suc (brk w)), Ev_perform (Suc (brk w)) req CURLE_OK,
                  Ev_cleanup (Suc (brk w))]\<rparr>)
      else (if ok then code else CURLE_WRITE_ERROR, out,
            wd\<lparr>blocks := blocks w, handles := handles w,
               trace := trace w @
                 [Ev_easy_init (Suc (brk w)),
                  Ev_perform (Suc (brk w)) req (if ok then code else CURLE_WRITE_ERROR),
                  Ev_cleanup (Suc (brk w))]\<rparr>))"

section \<open>Lemmas\<close>

lemma patch_block:
  assumes "length blk = length xs + length ys + 1" and "take (length xs) blk = xs"
  shows "(take (length xs) blk @ ys @ drop (length xs + length ys) blk)
           [length xs + length ys := v] = xs @ ys @ [v]"
proof -
  have "length (drop (length xs + length ys) blk) = 1"
    using assms(1) by simp
  then obtain z where z: "drop (length xs + length ys) blk = [z]"
    by (cases "drop (length xs + length ys) blk") auto
  show ?thesis
    by (simp add: assms(2) z list_update_append)
qed

lemma unat_grow:
  fixes s :: size_t
  assumes "unat s + n + 1 < 2 ^ 64"
  shows "unat (s + of_nat n + 1) = unat s + n + 1" and "unat (s + of_nat n) = unat s + n"
    and "unat (of_nat n :: size_t) = n"
proof -
  have n: "unat (of_nat n :: size_t) = n"
    using assms by (simp add: unat_of_nat)
  have sn: "unat (s + of_nat n) = unat s + n"
    using assms n by (simp add: unat_word_ariths)
  have "unat (s + of_nat n + 1) = unat (s + of_nat n) + 1"
    using assms sn by (simp add: unat_word_ariths)
  with sn n show "unat (s + of_nat n + 1) = unat s + n + 1" and "unat (s + of_nat n) = unat s + n"
    and "unat (of_nat n :: size_t) = n" by simp_all
qed

lemma write_cb_refused:
  assumes h: "holds B w mem content"
    and fit: "length content + length c + 1 < 2 ^ 64"
    and r: "refused (grants w)"
  shows "write_cb w c 1 (of_nat (length c)) mem = Inr (0, mem, w\<lparr>grants := tl (grants w)\<rparr>)"
proof -
  have sz: "unat (size_f mem) = length content"
    using h by (simp add: holds_def)
  have n: "unat (size_f mem + of_nat (length c) + 1) = length content + length c + 1"
    using unat_grow(1) [of "size_f mem" "length c"] fit sz by simp
  have "realloc w (data mem) (length content + length c + 1)
          = Inr (NULL, w\<lparr>grants := tl (grants w)\<rparr>)"
    using h r by (auto simp: holds_def realloc_def malloc_def split: if_splits)
  then show ?thesis
    by (simp add: write_cb_def n)
qed

lemma write_cb_granted:
  assumes h: "holds B w mem content"
    and fit: "length content + length c + 1 < 2 ^ 64"
    and g: "\<not> refused (grants w)"
  shows "write_cb w c 1 (of_nat (length c)) mem =
           Inr (of_nat (length c),
                \<lparr>data = Suc (brk w), size_f = size_f mem + of_nat (length c)\<rparr>,
                w\<lparr>blocks := B(Suc (brk w) \<mapsto> map Some (content @ c) @ [Some 0]),
                  brk := Suc (brk w), grants := tl (grants w)\<rparr>)"
proof -
  let ?n = "length content + length c + 1"
  let ?a = "Suc (brk w)"
  have sz: "unat (size_f mem) = length content"
    using h by (simp add: holds_def)
  have n: "unat (size_f mem + of_nat (length c) + 1) = ?n"
    and n': "unat (size_f mem + of_nat (length c)) = length content + length c"
    and nc: "unat (of_nat (length c) :: size_t) = length c"
    using unat_grow [of "size_f mem" "length c"] fit sz by simp_all
  have Ba: "B ?a = None"
    using h by (simp add: holds_def)
  obtain blk where re: "realloc w (data mem) ?n =
      Inr (?a, w\<lparr>blocks := B(?a \<mapsto> blk), brk := ?a, grants := tl (grants w)\<rparr>)"
    and len: "length blk = ?n" and pre: "take (length content) blk = map Some content"
  proof (cases "data mem = NULL")
    case True
    with h have "blocks w = B" "content = []" by (simp_all add: holds_def)
    with True g that [of "replicate ?n None"] show ?thesis
      by (simp add: realloc_def malloc_def)
  next
    case False
    with h obtain rest where rest: "rest \<noteq> []"
      "blocks w = B(data mem \<mapsto> map Some content @ rest)" "B (data mem) = None"
      by (auto simp: holds_def)
    let ?old = "map Some content @ rest"
    let ?blk = "take ?n ?old @ replicate (?n - length ?old) None"
    have "(B(data mem \<mapsto> ?old))(data mem := None) = B"
      using rest(3) by (simp add: fun_upd_idem)
    with False g rest have "realloc w (data mem) ?n =
      Inr (?a, w\<lparr>blocks := B(?a \<mapsto> ?blk), brk := ?a, grants := tl (grants w)\<rparr>)"
      by (simp add: realloc_def)
    moreover have "length ?blk = ?n" by simp
    moreover have "take (length content) ?blk = map Some content" by simp
    ultimately show ?thesis using that by blast
  qed
  have cp: "memcpy (w\<lparr>blocks := B(?a \<mapsto> blk), brk := ?a, grants := tl (grants w)\<rparr>) ?a
              (length content) c (length c) =
            Inr (w\<lparr>blocks := B(?a \<mapsto> take (length content) blk @ map Some c
                                      @ drop (length content + length c) blk),
                   brk := ?a, grants := tl (grants w)\<rparr>)"
    using len by (simp add: memcpy_def)
  have st: "store (w\<lparr>blocks := B(?a \<mapsto> take (length content) blk @ map Some c
                                      @ drop (length content + length c) blk),
                   brk := ?a, grants := tl (grants w)\<rparr>) ?a (length content + length c) 0 =
            Inr (w\<lparr>blocks := B(?a \<mapsto> map Some (content @ c) @ [Some 0]),
                   brk := ?a, grants := tl (grants w)\<rparr>)"
    using patch_block [of blk "map Some content" "map Some c" "Some 0"] len pre
    by (simp add: store_def)
  show ?thesis
    using re cp st by (simp add: write_cb_def n n' nc sz Let_def)
qed

lemma granted_not_refused: "granted os \<Longrightarrow> \<not> refused os"
  by (cases os) (auto simp: granted_def refused_def)

lemma granted_tl: "granted os \<Longrightarrow> granted (tl os)"
  by (cases os) (auto simp: granted_def)

lemma holds_refused_step:
  "holds B w mem content \<Longrightarrow> holds B (w\<lparr>grants := os\<rparr>) mem content"
  by (simp add: holds_def)

lemma holds_granted_step:
  assumes "holds B w mem content" and "length content + length c + 1 < 2 ^ 64"
  shows "holds B (w\<lparr>blocks := B(Suc (brk w) \<mapsto> map Some (content @ c) @ [Some 0]),
                    brk := Suc (brk w), grants := os\<rparr>)
           \<lparr>data = Suc (brk w), size_f = size_f mem + of_nat (length c)\<rparr> (content @ c)"
proof -
  have "unat (size_f mem) = length content"
    using assms(1) by (simp add: holds_def)
  then have "unat (size_f mem + of_nat (length c)) = length content + length c"
    using unat_grow(2) [of "size_f mem" "length c"] assms(2) by simp
  moreover have "\<forall>a>brk w. B a = None"
    using assms(1) by (simp add: holds_def)
  ultimately show ?thesis
    by (auto simp: holds_def)
qed

lemma deliver_holds:
  assumes "holds B w mem content"
    and "length content + sum_list (map length cs) + 1 < 2 ^ 64"
  shows "\<exists>r. deliver w mem cs = Inr r \<and> delivered B w content cs r"
  using assms
proof (induction cs arbitrary: w mem content)
  case Nil
  then show ?case
    by (auto simp: delivered_def)
next
  case (Cons c cs)
  have fit1: "length content + length c + 1 < 2 ^ 64"
    using Cons.prems(2) by simp
  have lc: "unat (of_nat (length c) :: size_t) = length c"
    using fit1 by (simp add: unat_of_nat)
  show ?case
  proof (cases "refused (grants w)")
    case True
    let ?w1 = "w\<lparr>grants := tl (grants w)\<rparr>"
    have step: "write_cb w c 1 (of_nat (length c)) mem = Inr (0, mem, ?w1)"
      using write_cb_refused [OF Cons.prems(1) fit1 True] .
    have ng: "\<not> granted (grants w)"
      using True granted_not_refused by blast
    have h1: "holds B ?w1 mem content"
      using holds_refused_step [OF Cons.prems(1)] .
    show ?thesis
    proof (cases "c = []")
      case False
      then have "(0 :: size_t) \<noteq> of_nat (length c)"
        using lc by (metis length_0_conv unat_0)
      with step ng h1 show ?thesis
        by (auto simp: delivered_def)
    next
      case empty: True
      have "length content + sum_list (map length cs) + 1 < 2 ^ 64"
        using Cons.prems(2) by simp
      from Cons.IH [OF h1 this]
      obtain r where r: "deliver ?w1 mem cs = Inr r" "delivered B ?w1 content cs r"
        by blast
      obtain rs ok mem' w' where [simp]: "r = (rs, ok, mem', w')"
        by (cases r) auto
      from r step ng empty show ?thesis
        by (auto simp: delivered_def)
    qed
  next
    case False
    let ?m1 = "\<lparr>data = Suc (brk w), size_f = size_f mem + of_nat (length c)\<rparr>"
    let ?w1 = "w\<lparr>blocks := B(Suc (brk w) \<mapsto> map Some (content @ c) @ [Some 0]),
                  brk := Suc (brk w), grants := tl (grants w)\<rparr>"
    have step: "write_cb w c 1 (of_nat (length c)) mem = Inr (of_nat (length c), ?m1, ?w1)"
      using write_cb_granted [OF Cons.prems(1) fit1 False] .
    have h1: "holds B ?w1 ?m1 (content @ c)"
      using holds_granted_step [OF Cons.prems(1) fit1] .
    have "length (content @ c) + sum_list (map length cs) + 1 < 2 ^ 64"
      using Cons.prems(2) by simp
    from Cons.IH [OF h1 this]
    obtain r where r: "deliver ?w1 ?m1 cs = Inr r" "delivered B ?w1 (content @ c) cs r"
      by blast
    obtain rs ok mem' w' where [simp]: "r = (rs, ok, mem', w')"
      by (cases r) auto
    show ?thesis
    proof (cases cs)
      case Nil
      with step r show ?thesis
        by (auto simp: delivered_def granted_tl)
    next
      case (Cons d ds)
      with step r show ?thesis
        by (auto simp: delivered_def granted_tl)
    qed
  qed
qed

lemma setopt_eq:
  "handles w h = Some e \<Longrightarrow>
   snd (curl_easy_setopt w h opt v) =
     w\<lparr>handles := (handles w)(h \<mapsto> (case set_option e opt v of None \<Rightarrow> e | Some e' \<Rightarrow> e'))\<rparr>"
  by (cases "set_option e opt v") (simp_all add: curl_easy_setopt_def fun_upd_idem)

lemma request_steps:
  assumes "\<not> refused (init_grants w)" and "\<forall>bs. payload = Some bs \<longrightarrow> 0 \<in> set bs"
  shows "curl_shim_simple_request net w url method payload headers out =
           conclude out (Suc (brk w))
             (curl_easy_perform net
                ((snd (malloc (snd (curl_easy_init w)) 1))
                   \<lparr>handles := (handles w)(Suc (brk w) \<mapsto> configured url method payload headers)\<rparr>)
                (Suc (brk w)) \<lparr>data = fst (malloc (snd (curl_easy_init w)) 1), size_f = 0\<rparr>)"
proof -
  let ?h = "Suc (brk w)"
  obtain w0 where init: "curl_easy_init w = (?h, w0)"
    and h0: "handles w0 = (handles w)(?h \<mapsto> easy_default)"
    using assms(1) by (simp add: curl_easy_init_def)
  obtain p w1 where m: "malloc w0 (Suc 0) = (p, w1)"
    by force
  have h1: "handles w1 = (handles w)(?h \<mapsto> easy_default)"
    using m h0 by (auto simp: malloc_def split: if_splits)
  show ?thesis
  proof (cases payload)
    case None
    show ?thesis
      unfolding curl_shim_simple_request_def
      by (simp add: init m None setopt_eq h1 easy_default_def configured_def conclude_def Let_def)
  next
    case (Some bs)
    then have z: "0 \<in> set bs"
      using assms(2) by simp
    show ?thesis
      unfolding curl_shim_simple_request_def
      by (simp add: init m Some z strlen_def setopt_eq h1 easy_default_def configured_def conclude_def
          Let_def)
  qed
qed

lemma sint_nonneg_unat:
  fixes x :: long
  assumes "0 \<le> sint x"
  shows "nat (sint x) = unat x"
proof -
  have "uint x = take_bit 64 (sint x)"
    using uint_sint [of x] by simp
  moreover have "sint x < 2 ^ 64"
    using sint_lt [of x] by simp
  ultimately have "uint x = sint x"
    using assms by (simp add: take_bit_int_eq_self)
  then show ?thesis by (metis nat_uint_eq)
qed

lemma unreadable_configured:
  assumes "\<forall>bs. payload = Some bs \<longrightarrow> 0 \<in> set bs"
    and "headers = NULL \<or> slists w headers \<noteq> None"
  shows "unreadable w (configured url method payload headers) = None"
proof (cases payload)
  case None
  with assms(2) show ?thesis
    by (auto simp: unreadable_def configured_def easy_default_def)
next
  case (Some bs)
  let ?k = "length (takeWhile (\<lambda>b. b \<noteq> 0) bs)"
  have z: "0 \<in> set bs" using assms(1) Some by simp
  have "\<not> length bs < nat (sint (of_nat ?k :: long))"
  proof (cases "0 \<le> sint (of_nat ?k :: long)")
    case False
    then show ?thesis by simp
  next
    case that: True
    have "nat (sint (of_nat ?k :: long)) = ?k mod 2 ^ 64"
      using sint_nonneg_unat [OF that] by (simp add: unat_of_nat)
    also have "\<dots> \<le> ?k" by simp
    also have "\<dots> \<le> length bs" by (rule length_takeWhile_le)
    finally show ?thesis by simp
  qed
  with assms(2) z Some show ?thesis
    by (auto simp: unreadable_def configured_def easy_default_def)
qed

lemma body_of_configured:
  assumes "length bs < 2 ^ 64"
  shows "body_of (configured url method (Some bs) headers) = Some (takeWhile (\<lambda>b. b \<noteq> 0) bs)"
proof -
  let ?k = "length (takeWhile (\<lambda>b. b \<noteq> 0) bs)"
  have k: "?k < 2 ^ 64"
    using assms length_takeWhile_le [of "\<lambda>b. b \<noteq> 0" bs] by simp
  have "take (nat (sint (of_nat ?k :: long))) bs = takeWhile (\<lambda>b. b \<noteq> 0) bs"
    if "0 \<le> sint (of_nat ?k :: long)"
  proof -
    have "nat (sint (of_nat ?k :: long)) = ?k"
      using sint_nonneg_unat [OF that] k by (simp add: unat_of_nat)
    then show ?thesis
      using takeWhile_eq_take [of "\<lambda>b. b \<noteq> 0" bs] by simp
  qed
  then show ?thesis
    by (auto simp: body_of_def configured_def easy_default_def)
qed

lemma perform_sink:
  assumes "handles wc h = Some e" and "opt_writefunction e" and "opt_writedata e"
    and "unreadable wc e = None"
    and "deliver wc ud (chunks (net (wire_of wc e))) = Inr (rs, ok, ud', wd)"
  shows "curl_easy_perform net wc h ud =
           Inr (if ok then outcome (net (wire_of wc e)) else CURLE_WRITE_ERROR, ud',
                wd\<lparr>handles := (handles wd)
                       (h \<mapsto> e\<lparr>info_response_code := http_status (net (wire_of wc e))\<rparr>),
                   trace := trace wd @
                     [Ev_perform h (wire_of wc e)
                        (if ok then outcome (net (wire_of wc e)) else CURLE_WRITE_ERROR)]\<rparr>)"
  using assms by (simp add: curl_easy_perform_def Let_def)

lemma free_held:
  assumes "holds B wd mem content" and same: "blocks wx = blocks wd"
  shows "free wx (data mem) = Inr (wx\<lparr>blocks := B\<rparr>)"
proof (cases "data mem = NULL")
  case True
  with assms have "blocks wx = B" by (simp add: holds_def)
  then have "wx\<lparr>blocks := B\<rparr> = wx" by auto
  with True show ?thesis by (simp add: free_def)
next
  case False
  with assms obtain rest where "blocks wx = B(data mem \<mapsto> map Some content @ rest)"
    and "B (data mem) = None"
    by (auto simp: holds_def)
  with False show ?thesis
    by (simp add: free_def fun_upd_idem)
qed

lemma request_summary:
  assumes init: "\<not> refused (init_grants w)"
    and pay: "\<forall>bs. payload = Some bs \<longrightarrow> 0 \<in> set bs"
    and hdr: "headers = NULL \<or> slists w headers \<noteq> None"
    and fr: "fresh w"
    and fit: "sum_list (map length
                (chunks (net (wire_of w (configured url meth payload headers))))) + 1 < 2 ^ 64"
  defines "h \<equiv> Suc (brk w)"
    and "req \<equiv> wire_of w (configured url meth payload headers)"
    and "pw \<equiv> malloc (snd (curl_easy_init w)) 1"
  defines "wc \<equiv> (snd pw)\<lparr>handles := (handles w)(h \<mapsto> configured url meth payload headers)\<rparr>"
  shows "\<exists>rs ok mem' wd.
           deliver wc \<lparr>data = fst pw, size_f = 0\<rparr> (chunks (net req)) = Inr (rs, ok, mem', wd) \<and>
           delivered (blocks w) wc [] (chunks (net req)) (rs, ok, mem', wd) \<and>
           curl_shim_simple_request net w url meth payload headers out =
             Inr (if ok then outcome (net req) else CURLE_WRITE_ERROR,
                  if ok \<and> outcome (net req) = CURLE_OK
                  then out\<lparr>response := data mem', response_len := size_f mem'\<rparr> else out,
                  wd\<lparr>blocks := if ok \<and> outcome (net req) = CURLE_OK then blocks wd else blocks w,
                     handles := handles w,
                     trace := trace w @
                       [Ev_easy_init h,
                        Ev_perform h req (if ok then outcome (net req) else CURLE_WRITE_ERROR),
                        Ev_cleanup h]\<rparr>)"
proof -
  let ?cfg = "configured url meth payload headers"
  let ?buf = "\<lparr>data = fst pw, size_f = 0\<rparr>"
  have wc_fields: "slists wc = slists w" "handles wc h = Some ?cfg"
    "trace wc = trace w @ [Ev_easy_init h]" "init_grants wc = tl (init_grants w)"
    using init by (simp_all add: wc_def pw_def h_def curl_easy_init_def malloc_def)
  have req: "wire_of wc ?cfg = req"
    by (simp add: wire_of_def req_def wc_fields)
  have rd: "unreadable wc ?cfg = None"
    using unreadable_configured [OF pay, of headers wc] hdr by (simp add: wc_fields)
  have sink: "opt_writefunction ?cfg" "opt_writedata ?cfg"
    by (simp_all add: configured_def easy_default_def)
  have hold: "holds (blocks w) wc ?buf []"
    using init fr
    by (auto simp: holds_def fresh_def wc_def pw_def curl_easy_init_def malloc_def
        intro: exI [of _ "[None]"])
  from deliver_holds [OF hold, of "chunks (net req)"] fit
  obtain r where r: "deliver wc ?buf (chunks (net req)) = Inr r"
    "delivered (blocks w) wc [] (chunks (net req)) r"
    by (auto simp: req_def)
  obtain rs ok mem' wd where r_eq: "r = (rs, ok, mem', wd)"
    by (cases r) auto
  let ?res = "if ok then outcome (net req) else CURLE_WRITE_ERROR"
  from r(2) obtain content' where post: "holds (blocks w) wd mem' content'"
    "handles wd = handles wc" "trace wd = trace wc"
    by (auto simp: r_eq delivered_def)
  have hwd: "handles wd = (handles w)(h \<mapsto> ?cfg)"
    using post(2) by (simp add: wc_def)
  have hfree: "handles w h = None"
    using fr by (simp add: fresh_def h_def)
  have perf: "curl_easy_perform net wc h ?buf =
      Inr (?res, mem',
           wd\<lparr>handles := (handles wd)(h \<mapsto> ?cfg\<lparr>info_response_code := http_status (net req)\<rparr>),
              trace := trace wd @ [Ev_perform h req ?res]\<rparr>)"
    using perform_sink [OF wc_fields(2) sink rd, of ?buf net rs ok mem' wd] r(1)
    by (simp add: req r_eq)
  have fin: "(handles w)(h := None) = handles w"
    using hfree by (simp add: fun_upd_idem)
  have rel: "free (wd\<lparr>handles := hs, trace := tr\<rparr>) (data mem') =
      Inr (wd\<lparr>handles := hs, trace := tr, blocks := blocks w\<rparr>)" for hs tr
    using free_held [OF post(1), of "wd\<lparr>handles := hs, trace := tr\<rparr>"] by simp
  have "curl_shim_simple_request net w url meth payload headers out =
      conclude out h (curl_easy_perform net wc h ?buf)"
    using request_steps [OF init pay] by (simp add: h_def wc_def pw_def)
  also have "\<dots> = Inr (?res,
                  if ok \<and> outcome (net req) = CURLE_OK
                  then out\<lparr>response := data mem', response_len := size_f mem'\<rparr> else out,
                  wd\<lparr>blocks := if ok \<and> outcome (net req) = CURLE_OK then blocks wd else blocks w,
                     handles := handles w,
                     trace := trace w @ [Ev_easy_init h, Ev_perform h req ?res, Ev_cleanup h]\<rparr>)"
    by (simp add: perf conclude_def curl_easy_cleanup_def hwd fin rel post(3) wc_fields(3))
  finally show ?thesis
    using r by (simp add: r_eq)
qed

text \<open>What a run on concrete arguments unfolds, once \<open>request_steps\<close> has been applied.\<close>

lemmas run_defs =
  conclude_def configured_def curl_easy_init_def malloc_def
  curl_easy_perform_def unreadable_def wire_of_def body_of_def write_cb_def realloc_def
  memcpy_def store_def free_def curl_easy_cleanup_def refused_def easy_default_def
  world0_def answer_def out0_def Let_def

lemma c_string_zero: "c_string payload \<Longrightarrow> \<forall>bs. payload = Some bs \<longrightarrow> 0 \<in> set bs"
  by (auto simp: c_string_def)

text \<open>The summary again, under the named conditions, ready to be used as a rule.\<close>

lemma bounded_fit: "bounded net \<Longrightarrow> sum_list (map length (chunks (net r))) + 1 < 2 ^ 64"
  by (simp add: bounded_def)

lemma request_outcome:
  assumes init: "\<not> refused (init_grants w)" and pay: "c_string payload"
    and hdr: "header_list w headers" and fr: "fresh w"
    and bd: "sum_list (map length (chunks (net (request_of w url meth payload headers)))) + 1
               < 2 ^ 64"
  obtains rs ok mem' wd where
    "deliver (armed w url meth payload headers)
       \<lparr>data = fst (malloc (snd (curl_easy_init w)) 1), size_f = 0\<rparr>
       (chunks (net (request_of w url meth payload headers)))
     = Inr (rs, ok, mem', wd)"
    and "delivered (blocks w) (armed w url meth payload headers) []
       (chunks (net (request_of w url meth payload headers))) (rs, ok, mem', wd)"
    and "curl_shim_simple_request net w url meth payload headers out =
       Inr (result_of w out (request_of w url meth payload headers)
              (outcome (net (request_of w url meth payload headers))) ok mem' wd)"
proof -
  have fit: "sum_list (map length
      (chunks (net (wire_of w (configured url meth payload headers))))) + 1 < 2 ^ 64"
    using bd by (simp add: request_of_def)
  have hdr': "headers = NULL \<or> slists w headers \<noteq> None"
    using hdr by (simp add: header_list_def)
  have same: "result_of w out req code ok mem' wd =
      (if ok then code else CURLE_WRITE_ERROR,
       if ok \<and> code = CURLE_OK
       then out\<lparr>response := data mem', response_len := size_f mem'\<rparr> else out,
       wd\<lparr>blocks := if ok \<and> code = CURLE_OK then blocks wd else blocks w,
          handles := handles w,
          trace := trace w @
            [Ev_easy_init (Suc (brk w)),
             Ev_perform (Suc (brk w)) req (if ok then code else CURLE_WRITE_ERROR),
             Ev_cleanup (Suc (brk w))]\<rparr>)" for req code ok mem' wd
    by (simp add: result_of_def)
  have "\<exists>rs ok mem' wd.
      deliver (armed w url meth payload headers)
         \<lparr>data = fst (malloc (snd (curl_easy_init w)) 1), size_f = 0\<rparr>
         (chunks (net (request_of w url meth payload headers)))
       = Inr (rs, ok, mem', wd) \<and>
      delivered (blocks w) (armed w url meth payload headers) []
         (chunks (net (request_of w url meth payload headers))) (rs, ok, mem', wd) \<and>
      curl_shim_simple_request net w url meth payload headers out =
         Inr (result_of w out (request_of w url meth payload headers)
                (outcome (net (request_of w url meth payload headers))) ok mem' wd)"
    unfolding same armed_def request_of_def
    by (rule request_summary [where net = net and w = w and url = url and meth = meth
          and payload = payload and headers = headers and out = out,
          OF init c_string_zero [OF pay] hdr' fr fit])
  then show ?thesis
    using that by blast
qed

text \<open>A buffer pointer that is not null stays so: the sink only ever replaces it by a new block.\<close>

lemma write_cb_keeps_pointer:
  assumes "write_cb w ptr sz nmemb mem = Inr (r, mem1, w1)" and "data mem \<noteq> NULL"
  shows "data mem1 \<noteq> NULL"
  using assms
  by (auto simp: write_cb_def Let_def split: sum.splits prod.splits if_splits)

lemma deliver_keeps_pointer:
  assumes "deliver w mem cs = Inr (rs, ok, mem', w')" and "data mem \<noteq> NULL"
  shows "data mem' \<noteq> NULL"
  using assms
proof (induction cs arbitrary: w mem rs)
  case Nil
  then show ?case by simp
next
  case (Cons c cs)
  from Cons.prems(1) obtain r mem1 w1 where
    step: "write_cb w c 1 (of_nat (length c)) mem = Inr (r, mem1, w1)"
    by (auto split: sum.splits)
  have p1: "data mem1 \<noteq> NULL"
    using write_cb_keeps_pointer [OF step Cons.prems(2)] .
  show ?case
  proof (cases "r \<noteq> of_nat (length c)")
    case True
    with Cons.prems(1) step p1 show ?thesis by simp
  next
    case False
    with Cons.prems(1) step obtain rs' where
      "deliver w1 mem1 cs = Inr (rs', ok, mem', w')"
      by (auto split: sum.splits)
    from Cons.IH [OF this p1] show ?thesis .
  qed
qed

section \<open>Properties\<close>

text \<open>
  C1, as the code has it. The body's length is taken with \<open>strlen\<close>, so what is
  transmitted is the payload up to, not including, its first zero byte. For a
  payload object holding \<open>body\<close> and a terminating zero byte: the request performed
  carries the bytes of \<open>body\<close> before its first zero byte; that is all of \<open>body\<close>,
  with its exact length, when \<open>body\<close> has no zero byte in it.
\<close>

theorem body_sent_up_to_first_zero:
  assumes init: "\<not> refused (init_grants w)" and hdr: "header_list w headers"
    and fr: "fresh w" and bd: "bounded net" and len: "length body + 1 < 2 ^ 64"
  shows "\<exists>res out' w' req.
           curl_shim_simple_request net w url method (Some (body @ [0])) headers out
             = Inr (res, out', w') \<and>
           trace w' = trace w @
             [Ev_easy_init (Suc (brk w)), Ev_perform (Suc (brk w)) req res,
              Ev_cleanup (Suc (brk w))] \<and>
           w_body req = Some (takeWhile (\<lambda>b. b \<noteq> 0) body) \<and>
           (0 \<notin> set body \<longrightarrow> w_body req = Some body)"
proof -
  have pay: "c_string (Some (body @ [0]))"
    by (simp add: c_string_def)
  have "length (body @ [0 :: byte]) < 2 ^ 64"
    using len by simp
  then have sent: "w_body (request_of w url method (Some (body @ [0])) headers)
      = Some (takeWhile (\<lambda>b. b \<noteq> 0) (body @ [0]))"
    by (simp add: request_of_def wire_of_def body_of_configured)
  have whole: "takeWhile (\<lambda>b. b \<noteq> 0) body = body" if "0 \<notin> set body"
  proof -
    have "\<forall>x\<in>set body. x \<noteq> 0"
      using that by auto
    then show ?thesis
      by (simp add: takeWhile_eq_all_conv)
  qed
  have cut: "takeWhile (\<lambda>b. b \<noteq> 0) (body @ [0 :: byte]) = takeWhile (\<lambda>b. b \<noteq> 0) body"
    by (induction body) simp_all
  show ?thesis
  proof (rule request_outcome [where net = net and url = url and meth = "method"
        and out = out, OF init pay hdr fr bounded_fit [OF bd]])
    fix rs ok mem' wd
    assume run: "curl_shim_simple_request net w url method (Some (body @ [0])) headers out =
         Inr (result_of w out (request_of w url method (Some (body @ [0])) headers)
                (outcome (net (request_of w url method (Some (body @ [0])) headers)))
                ok mem' wd)"
    show ?thesis
      unfolding run using sent cut whole
      by (cases "ok \<and> outcome (net (request_of w url method (Some (body @ [0])) headers)) = 0")
        (simp_all add: result_of_def)
  qed
qed

theorem body_sent_up_to_first_zero_witness:
  "\<not> refused (init_grants world0) \<and> header_list world0 NULL \<and> fresh world0 \<and>
   bounded (answer [] CURLE_OK 200) \<and> length [104, 105 :: byte] + 1 < (2 :: nat) ^ 64 \<and>
   curl_shim_simple_request (answer [] CURLE_OK 200) world0
       ''http://host/'' ''POST'' (Some ([104, 105] @ [0])) NULL out0 =
     Inr (CURLE_OK, \<lparr>response = 2, response_len = 0\<rparr>,
          world0\<lparr>blocks := [2 \<mapsto> [None]], brk := 2,
            trace := [Ev_easy_init 1,
                      Ev_perform 1 \<lparr>w_url = Some ''http://host/'', w_method = Some ''POST'',
                                     w_headers = [], w_body = Some [104, 105]\<rparr> CURLE_OK,
                      Ev_cleanup 1]\<rparr>)"
proof -
  have h: "\<not> refused (init_grants world0)" "header_list world0 NULL" "fresh world0"
    "bounded (answer [] CURLE_OK 200)" "length [104, 105 :: byte] + 1 < (2 :: nat) ^ 64"
    by (simp_all add: refused_def header_list_def fresh_def bounded_def world0_def answer_def)
  have run: "curl_shim_simple_request (answer [] CURLE_OK 200) world0
       ''http://host/'' ''POST'' (Some ([104, 105] @ [0])) NULL out0 =
     Inr (CURLE_OK, \<lparr>response = 2, response_len = 0\<rparr>,
          world0\<lparr>blocks := [2 \<mapsto> [None]], brk := 2,
            trace := [Ev_easy_init 1,
                      Ev_perform 1 \<lparr>w_url = Some ''http://host/'', w_method = Some ''POST'',
                                     w_headers = [], w_body = Some [104, 105]\<rparr> CURLE_OK,
                      Ev_cleanup 1]\<rparr>)"
    using request_steps [OF h(1), of "Some ([104, 105] @ [0])"]
    by (simp add: run_defs numeral_2_eq_2 [symmetric])
  show ?thesis
    using h run
      body_sent_up_to_first_zero [OF h, of "''http://host/''" "''POST''" out0]
    by simp
qed

text \<open>
  The claim as stated fails: the three-byte body \<open>a\<close>, zero, \<open>b\<close> (in a terminated
  object) goes out as the single byte \<open>a\<close>.
\<close>

theorem embedded_zero_truncates_counterexample:
  "curl_shim_simple_request (answer [] CURLE_OK 200) world0
       ''http://host/'' ''POST'' (Some ([97, 0, 98] @ [0])) NULL out0 =
     Inr (CURLE_OK, \<lparr>response = 2, response_len = 0\<rparr>,
          world0\<lparr>blocks := [2 \<mapsto> [None]], brk := 2,
            trace := [Ev_easy_init 1,
                      Ev_perform 1 \<lparr>w_url = Some ''http://host/'', w_method = Some ''POST'',
                                     w_headers = [], w_body = Some [97]\<rparr> CURLE_OK,
                      Ev_cleanup 1]\<rparr>) \<and>
   [97] \<noteq> [97, 0, 98 :: byte]"
proof -
  have "\<not> refused (init_grants world0)"
    by (simp add: refused_def world0_def)
  from request_steps [OF this, of "Some ([97, 0, 98] @ [0])"] show ?thesis
    by (simp add: run_defs numeral_2_eq_2 [symmetric])
qed

text \<open>
  C2, as the code has it. The function never releases the header list it is given:
  on every path (handle not acquired, transfer succeeded, transfer failed) the header
  lists that were live are still live when it returns, and the log shows as many
  releases of \<open>headers\<close> as before the call, that is none made by the call. Releasing
  the list is left to the caller: \<open>curl_shim_slist_free_all\<close> on the returned world
  succeeds, ends the list's life and is the one release in the log.
\<close>

theorem header_list_left_to_caller:
  assumes pay: "c_string payload" and hdr: "header_list w headers"
    and fr: "fresh w" and bd: "bounded net"
  shows "\<exists>res out' w'.
           curl_shim_simple_request net w url method payload headers out = Inr (res, out', w') \<and>
           slists w' = slists w \<and>
           count_list (trace w') (Ev_slist_free_all headers) =
             count_list (trace w) (Ev_slist_free_all headers) \<and>
           (headers \<noteq> NULL \<longrightarrow>
              (\<exists>w''. curl_shim_slist_free_all w' headers = Inr w'' \<and>
                     slists w'' headers = None \<and>
                     count_list (trace w'') (Ev_slist_free_all headers) =
                       Suc (count_list (trace w) (Ev_slist_free_all headers))))"
proof -
  have later: "\<exists>w''. curl_shim_slist_free_all w' headers = Inr w'' \<and>
      slists w'' headers = None \<and>
      count_list (trace w'') (Ev_slist_free_all headers) =
        Suc (count_list (trace w) (Ev_slist_free_all headers))"
    if "headers \<noteq> NULL" and "slists w' = slists w"
      and "count_list (trace w') (Ev_slist_free_all headers) =
        count_list (trace w) (Ev_slist_free_all headers)" for w'
    using that hdr
    by (simp add: curl_shim_slist_free_all_def curl_slist_free_all_def header_list_def)
  have "\<exists>res out' w'.
      curl_shim_simple_request net w url method payload headers out = Inr (res, out', w') \<and>
      slists w' = slists w \<and>
      count_list (trace w') (Ev_slist_free_all headers) =
        count_list (trace w) (Ev_slist_free_all headers)"
  proof (cases "refused (init_grants w)")
    case True
    then show ?thesis
      by (simp add: curl_shim_simple_request_def curl_easy_init_def)
  next
    case False
    show ?thesis
    proof (rule request_outcome [where net = net and url = url and meth = "method"
          and out = out, OF False pay hdr fr bounded_fit [OF bd]])
      fix rs ok mem' wd
      assume run: "curl_shim_simple_request net w url method payload headers out =
           Inr (result_of w out (request_of w url method payload headers)
                  (outcome (net (request_of w url method payload headers))) ok mem' wd)"
        and post: "delivered (blocks w) (armed w url method payload headers) []
           (chunks (net (request_of w url method payload headers))) (rs, ok, mem', wd)"
      have "slists wd = slists (armed w url method payload headers)"
        using post by (auto simp: delivered_def)
      also have "\<dots> = slists w"
        using False by (simp add: armed_def curl_easy_init_def malloc_def)
      finally show ?thesis
        unfolding run by (simp add: result_of_def)
    qed
  qed
  then obtain res out' w' where
    "curl_shim_simple_request net w url method payload headers out = Inr (res, out', w')"
    "slists w' = slists w"
    "count_list (trace w') (Ev_slist_free_all headers) =
       count_list (trace w) (Ev_slist_free_all headers)"
    by (elim exE conjE)
  with later [of w'] show ?thesis
    by (intro exI [of _ res] exI [of _ out'] exI [of _ w']) simp
qed

theorem header_list_left_to_caller_witness:
  "c_string None \<and>
   header_list (world0\<lparr>slists := [1 \<mapsto> [''Accept: text/plain'']], brk := 1\<rparr>) 1 \<and>
   fresh (world0\<lparr>slists := [1 \<mapsto> [''Accept: text/plain'']], brk := 1\<rparr>) \<and>
   bounded (answer [[1, 2]] 28 0) \<and>
   curl_shim_simple_request (answer [[1, 2]] 28 0)
       (world0\<lparr>slists := [1 \<mapsto> [''Accept: text/plain'']], brk := 1\<rparr>)
       ''http://host/'' ''GET'' None 1 out0 =
     Inr (28, out0,
          world0\<lparr>slists := [1 \<mapsto> [''Accept: text/plain'']], brk := 4,
            trace := [Ev_easy_init 2,
                      Ev_perform 2 \<lparr>w_url = Some ''http://host/'', w_method = Some ''GET'',
                                     w_headers = [''Accept: text/plain''], w_body = None\<rparr> 28,
                      Ev_cleanup 2]\<rparr>)"
proof -
  let ?w = "world0\<lparr>slists := [1 \<mapsto> [''Accept: text/plain'']], brk := 1\<rparr>"
  have h: "c_string None" "header_list ?w 1" "fresh ?w" "bounded (answer [[1, 2]] 28 0)"
    by (simp_all add: c_string_def header_list_def fresh_def bounded_def world0_def answer_def)
  have i: "\<not> refused (init_grants ?w)"
    by (simp add: refused_def world0_def)
  have run: "curl_shim_simple_request (answer [[1, 2]] 28 0) ?w ''http://host/'' ''GET''
      None 1 out0 =
     Inr (28, out0,
          world0\<lparr>slists := [1 \<mapsto> [''Accept: text/plain'']], brk := 4,
            trace := [Ev_easy_init 2,
                      Ev_perform 2 \<lparr>w_url = Some ''http://host/'', w_method = Some ''GET'',
                                     w_headers = [''Accept: text/plain''], w_body = None\<rparr> 28,
                      Ev_cleanup 2]\<rparr>)"
    using request_steps [OF i, of None] by (simp add: run_defs numeral_2_eq_2 [symmetric])
  show ?thesis
    using h run header_list_left_to_caller [OF h, of "''http://host/''" "''GET''" out0]
    by simp
qed

text \<open>
  The claim as stated fails: a successful call with a one-entry header list returns
  with the list still live and no release in the log, so the count of releases is 0,
  not 1.
\<close>

theorem header_list_released_once_counterexample:
  "curl_shim_simple_request (answer [] CURLE_OK 200)
       (world0\<lparr>slists := [1 \<mapsto> [''Accept: text/plain'']], brk := 1\<rparr>)
       ''http://host/'' ''GET'' None 1 out0 =
     Inr (CURLE_OK, \<lparr>response = 3, response_len = 0\<rparr>,
          world0\<lparr>blocks := [3 \<mapsto> [None]],
            slists := [1 \<mapsto> [''Accept: text/plain'']], brk := 3,
            trace := [Ev_easy_init 2,
                      Ev_perform 2 \<lparr>w_url = Some ''http://host/'', w_method = Some ''GET'',
                                     w_headers = [''Accept: text/plain''], w_body = None\<rparr>
                        CURLE_OK,
                      Ev_cleanup 2]\<rparr>) \<and>
   count_list [Ev_easy_init 2,
               Ev_perform 2 \<lparr>w_url = Some ''http://host/'', w_method = Some ''GET'',
                              w_headers = [''Accept: text/plain''], w_body = None\<rparr> CURLE_OK,
               Ev_cleanup 2] (Ev_slist_free_all 1) = 0"
proof -
  have i: "\<not> refused (init_grants (world0\<lparr>slists := [1 \<mapsto> [''Accept: text/plain'']], brk := 1\<rparr>))"
    by (simp add: refused_def world0_def)
  from request_steps [OF i, of None] show ?thesis
    by (simp add: run_defs numeral_2_eq_2 [symmetric])
qed

text \<open>
  The loop run from the initial accumulator (one allocated byte, length 0) with every
  allocation granted and the total within the address space.
\<close>

lemma sink_run:
  assumes fr: "fresh w" and gr: "granted (grants w)"
    and fit: "sum_list (map length cs) + 1 < 2 ^ 64"
    and m: "malloc w 1 = (p, w1)"
  shows "\<exists>rs mem' w' blk.
           deliver w1 \<lparr>data = p, size_f = 0\<rparr> cs = Inr (rs, True, mem', w') \<and>
           map unat rs = map length cs \<and>
           unat (size_f mem') = sum_list (map length cs) \<and>
           blocks w' (data mem') = Some blk \<and>
           take (unat (size_f mem')) blk = map Some (concat cs) \<and>
           (cs \<noteq> [] \<longrightarrow> blk = map Some (concat cs) @ [Some 0])"
proof -
  let ?buf = "\<lparr>data = p, size_f = 0\<rparr>"
  have nr: "\<not> refused (grants w)"
    using gr by (rule granted_not_refused)
  have p: "p = Suc (brk w)"
    and w1: "w1 = w\<lparr>blocks := (blocks w)(Suc (brk w) \<mapsto> [None]), brk := Suc (brk w),
                     grants := tl (grants w)\<rparr>"
    using m nr by (auto simp: malloc_def)
  have hold: "holds (blocks w) w1 ?buf []"
    using fr by (auto simp: holds_def fresh_def p w1 intro: exI [of _ "[None]"])
  have g1: "granted (grants w1)"
    using gr by (simp add: w1 granted_tl)
  from deliver_holds [OF hold, of cs] fit
  obtain r where r: "deliver w1 ?buf cs = Inr r" "delivered (blocks w) w1 [] cs r"
    by auto
  obtain rs ok mem' w' where r_eq: "r = (rs, ok, mem', w')"
    by (cases r) auto
  from r(2) g1 obtain content' where post:
    "holds (blocks w) w' mem' content'" "ok" "content' = concat cs"
    "rs = map (\<lambda>c. of_nat (length c)) cs"
    "cs \<noteq> [] \<longrightarrow> data mem' \<noteq> NULL \<and>
       blocks w' = (blocks w)(data mem' \<mapsto> map Some content' @ [Some 0])"
    by (auto simp: r_eq delivered_def)
  have each: "unat (of_nat (length c) :: size_t) = length c" if "c \<in> set cs" for c
  proof -
    have "length c \<le> sum_list (map length cs)"
      using that by (simp add: member_le_sum_list)
    then show ?thesis
      using fit by (simp add: unat_of_nat)
  qed
  have rets: "map unat rs = map length cs"
    using each by (simp add: post(4))
  have len: "unat (size_f mem') = sum_list (map length cs)"
    using post(1) by (simp add: holds_def post(3) length_concat)
  show ?thesis
  proof (cases "cs = []")
    case True
    then show ?thesis
      by (simp add: p w1)
  next
    case False
    with post(5) have "blocks w' (data mem') = Some (map Some (concat cs) @ [Some 0])"
      by (simp add: post(3))
    moreover have "take (unat (size_f mem')) (map Some (concat cs) @ [Some 0])
        = map Some (concat cs)"
      by (simp add: len length_concat)
    ultimately show ?thesis
      using r(1) post(2) rets len by (simp add: r_eq)
  qed
qed

text \<open>
  C3. Feed any finite sequence of chunks to the sink, starting from the initial
  accumulator, with every allocation granted (the total, with the terminator, fitting
  the address space). Then every call returns its chunk's length, the final length
  is the sum of the chunk lengths, and the buffer starts with the chunks'
  concatenation. After each call (that is, after every non-empty prefix of the
  sequence) the buffer is exactly the content so far followed by one zero byte, which
  the length does not count.
\<close>

theorem sink_accumulates:
  assumes "fresh w" and "granted (grants w)"
    and "sum_list (map length cs) + 1 < 2 ^ 64"
    and "malloc w 1 = (p, w1)"
  shows "(\<exists>rs mem' w' blk.
            deliver w1 \<lparr>data = p, size_f = 0\<rparr> cs = Inr (rs, True, mem', w') \<and>
            map unat rs = map length cs \<and>
            unat (size_f mem') = sum_list (map length cs) \<and>
            blocks w' (data mem') = Some blk \<and>
            take (unat (size_f mem')) blk = map Some (concat cs)) \<and>
         (\<forall>k. 0 < k \<and> k \<le> length cs \<longrightarrow>
            (\<exists>rs mem' w'.
               deliver w1 \<lparr>data = p, size_f = 0\<rparr> (take k cs) = Inr (rs, True, mem', w') \<and>
               unat (size_f mem') = length (concat (take k cs)) \<and>
               blocks w' (data mem') = Some (map Some (concat (take k cs)) @ [Some 0])))"
proof (intro conjI allI impI)
  show "\<exists>rs mem' w' blk.
            deliver w1 \<lparr>data = p, size_f = 0\<rparr> cs = Inr (rs, True, mem', w') \<and>
            map unat rs = map length cs \<and>
            unat (size_f mem') = sum_list (map length cs) \<and>
            blocks w' (data mem') = Some blk \<and>
            take (unat (size_f mem')) blk = map Some (concat cs)"
    using sink_run [OF assms] by blast
next
  fix k
  assume k: "0 < k \<and> k \<le> length cs"
  have "sum_list (map length cs) =
      sum_list (map length (take k cs)) + sum_list (map length (drop k cs))"
    by (metis append_take_drop_id map_append sum_list_append)
  then have fit: "sum_list (map length (take k cs)) + 1 < 2 ^ 64"
    using assms(3) by simp
  have ne: "take k cs \<noteq> []"
    using k by auto
  from sink_run [OF assms(1,2) fit assms(4)] ne
  show "\<exists>rs mem' w'.
          deliver w1 \<lparr>data = p, size_f = 0\<rparr> (take k cs) = Inr (rs, True, mem', w') \<and>
          unat (size_f mem') = length (concat (take k cs)) \<and>
          blocks w' (data mem') = Some (map Some (concat (take k cs)) @ [Some 0])"
    by (auto simp: length_concat)
qed

theorem sink_accumulates_witness:
  "fresh world0 \<and> granted (grants world0) \<and>
   sum_list (map length [[1, 2], [], [3 :: byte]]) + 1 < (2 :: nat) ^ 64 \<and>
   malloc world0 1 = (1, world0\<lparr>blocks := [1 \<mapsto> [None]], brk := 1\<rparr>) \<and>
   deliver (world0\<lparr>blocks := [1 \<mapsto> [None]], brk := 1\<rparr>) \<lparr>data = 1, size_f = 0\<rparr>
       [[1, 2], [], [3]] =
     Inr ([2, 0, 1], True, \<lparr>data = 4, size_f = 3\<rparr>,
          world0\<lparr>blocks := [4 \<mapsto> [Some 1, Some 2, Some 3, Some 0]], brk := 4\<rparr>)"
proof -
  have h: "fresh world0" "granted (grants world0)"
    "sum_list (map length [[1, 2], [], [3 :: byte]]) + 1 < (2 :: nat) ^ 64"
    "malloc world0 1 = (1, world0\<lparr>blocks := [1 \<mapsto> [None]], brk := 1\<rparr>)"
    by (simp_all add: fresh_def granted_def world0_def malloc_def refused_def)
  have run: "deliver (world0\<lparr>blocks := [1 \<mapsto> [None]], brk := 1\<rparr>) \<lparr>data = 1, size_f = 0\<rparr>
       [[1, 2], [], [3]] =
     Inr ([2, 0, 1], True, \<lparr>data = 4, size_f = 3\<rparr>,
          world0\<lparr>blocks := [4 \<mapsto> [Some 1, Some 2, Some 3, Some 0]], brk := 4\<rparr>)"
    by (simp add: world0_def write_cb_def realloc_def memcpy_def store_def refused_def Let_def
        numeral_2_eq_2 [symmetric])
  show ?thesis
    using h run sink_accumulates [OF h] by simp
qed

text \<open>
  C4. Whenever \<open>curl_easy_perform\<close> fails, be it with the engine's own code or with
  \<open>CURLE_WRITE_ERROR\<close> after the sink refused a chunk, the function returns that very
  code (the one logged for the perform call), the caller's two variables are what
  they were, and the heap holds exactly the blocks it held before the call: the
  accumulated buffer has been released and is not handed out. An exchange the engine
  ends with an error is never reported as \<open>CURLE_OK\<close>.
\<close>

theorem transport_failure_releases_buffer:
  assumes init: "\<not> refused (init_grants w)" and pay: "c_string payload"
    and hdr: "header_list w headers" and fr: "fresh w" and bd: "bounded net"
  shows "\<exists>res out' w'.
           curl_shim_simple_request net w url method payload headers out = Inr (res, out', w') \<and>
           trace w' = trace w @
             [Ev_easy_init (Suc (brk w)),
              Ev_perform (Suc (brk w)) (request_of w url method payload headers) res,
              Ev_cleanup (Suc (brk w))] \<and>
           (outcome (net (request_of w url method payload headers)) \<noteq> CURLE_OK
              \<longrightarrow> res \<noteq> CURLE_OK) \<and>
           (res \<noteq> CURLE_OK \<longrightarrow> out' = out \<and> blocks w' = blocks w \<and> handles w' = handles w)"
proof (rule request_outcome [where net = net and url = url and meth = "method" and out = out,
      OF init pay hdr fr bounded_fit [OF bd]])
  fix rs ok mem' wd
  assume run: "curl_shim_simple_request net w url method payload headers out =
       Inr (result_of w out (request_of w url method payload headers)
              (outcome (net (request_of w url method payload headers))) ok mem' wd)"
  show ?thesis
    unfolding run by (cases ok) (simp_all add: result_of_def)
qed

theorem transport_failure_releases_buffer_witness:
  "\<not> refused (init_grants world0) \<and> c_string None \<and> header_list world0 NULL \<and> fresh world0 \<and>
   bounded (answer [[1, 2]] 28 0) \<and>
   curl_shim_simple_request (answer [[1, 2]] 28 0) world0 ''http://host/'' ''GET'' None NULL out0 =
     Inr (28, out0,
          world0\<lparr>brk := 3,
            trace := [Ev_easy_init 1,
                      Ev_perform 1 \<lparr>w_url = Some ''http://host/'', w_method = Some ''GET'',
                                     w_headers = [], w_body = None\<rparr> 28,
                      Ev_cleanup 1]\<rparr>)"
proof -
  have h: "\<not> refused (init_grants world0)" "c_string None" "header_list world0 NULL"
    "fresh world0" "bounded (answer [[1, 2]] 28 0)"
    by (simp_all add: refused_def c_string_def header_list_def fresh_def bounded_def
        world0_def answer_def)
  have run: "curl_shim_simple_request (answer [[1, 2]] 28 0) world0 ''http://host/'' ''GET''
      None NULL out0 =
     Inr (28, out0,
          world0\<lparr>brk := 3,
            trace := [Ev_easy_init 1,
                      Ev_perform 1 \<lparr>w_url = Some ''http://host/'', w_method = Some ''GET'',
                                     w_headers = [], w_body = None\<rparr> 28,
                      Ev_cleanup 1]\<rparr>)"
    using request_steps [OF h(1), of None] by (simp add: run_defs numeral_2_eq_2 [symmetric])
  show ?thesis
    using h run
      transport_failure_releases_buffer [OF h, of "''http://host/''" "''GET''" out0]
    by simp
qed

text \<open>
  C5, as the code has it. Whenever the exchange completes, that is
  \<open>curl_easy_perform\<close> returns \<open>CURLE_OK\<close> (as it does when the engine ends the exchange
  with \<open>CURLE_OK\<close> and no allocation is refused), the function returns \<open>CURLE_OK\<close> with
  the length of the whole body and, where the returned pointer is not null (it is
  not when \<open>malloc(1)\<close> was granted), a buffer that starts with the body; the HTTP
  status plays no part in this. The status is no part of the result, and no handle
  gives it afterwards either: the handle is private to the call and released before
  it returns, so the live handles are those from before the call, every handle
  answers \<open>curl_shim_getinfo_long\<close> as it did before the call, and the call with any
  other status \<open>s\<close> in the network's answers has the same result and leaves the same
  world.
\<close>

theorem status_is_not_reported:
  assumes init: "\<not> refused (init_grants w)" and pay: "c_string payload"
    and hdr: "header_list w headers" and fr: "fresh w" and bd: "bounded net"
  shows "\<exists>res out' w'.
           curl_shim_simple_request net w url method payload headers out = Inr (res, out', w') \<and>
           trace w' = trace w @
             [Ev_easy_init (Suc (brk w)),
              Ev_perform (Suc (brk w)) (request_of w url method payload headers) res,
              Ev_cleanup (Suc (brk w))] \<and>
           (granted (grants w) \<and>
            outcome (net (request_of w url method payload headers)) = CURLE_OK
              \<longrightarrow> res = CURLE_OK) \<and>
           (res = CURLE_OK \<longrightarrow>
              response_len out' =
                of_nat (length (concat (chunks (net (request_of w url method payload headers)))))
              \<and>
              (response out' \<noteq> NULL \<longrightarrow>
                 (\<exists>blk. blocks w' (response out') = Some blk \<and>
                    take (length (concat
                            (chunks (net (request_of w url method payload headers))))) blk
                      = map Some (concat
                            (chunks (net (request_of w url method payload headers)))))) \<and>
              (\<not> refused (grants w) \<longrightarrow> response out' \<noteq> NULL)) \<and>
           handles w' = handles w \<and>
           (\<forall>h info. curl_shim_getinfo_long w' h info = curl_shim_getinfo_long w h info) \<and>
           curl_shim_simple_request (\<lambda>r. (net r)\<lparr>http_status := s\<rparr>) w url method payload
               headers out
             = curl_shim_simple_request net w url method payload headers out"
proof -
  let ?req = "request_of w url method payload headers"
  let ?body = "concat (chunks (net ?req))"
  let ?net = "\<lambda>r. (net r)\<lparr>http_status := s\<rparr>"
  let ?buf = "\<lparr>data = fst (malloc (snd (curl_easy_init w)) 1), size_f = 0\<rparr>"
  have fit': "sum_list (map length (chunks (?net ?req))) + 1 < 2 ^ 64"
    using bounded_fit [OF bd, of ?req] by simp
  have g1: "granted (grants (armed w url method payload headers))" if "granted (grants w)"
    using that init by (simp add: armed_def curl_easy_init_def malloc_def granted_tl)
  have p0: "fst (malloc (snd (curl_easy_init w)) 1) \<noteq> NULL" if "\<not> refused (grants w)"
    using that init by (simp add: curl_easy_init_def malloc_def)
  show ?thesis
  proof (rule request_outcome [where net = net and url = url and meth = "method"
        and out = out, OF init pay hdr fr bounded_fit [OF bd]])
    fix rs ok mem' wd
    assume run: "curl_shim_simple_request net w url method payload headers out =
         Inr (result_of w out ?req (outcome (net ?req)) ok mem' wd)"
      and del: "deliver (armed w url method payload headers) ?buf (chunks (net ?req))
         = Inr (rs, ok, mem', wd)"
      and post: "delivered (blocks w) (armed w url method payload headers) []
         (chunks (net ?req)) (rs, ok, mem', wd)"
    obtain res out' w' where r: "result_of w out ?req (outcome (net ?req)) ok mem' wd
        = (res, out', w')"
      by (cases "result_of w out ?req (outcome (net ?req)) ok mem' wd") auto
    from post obtain content' where c:
      "holds (blocks w) wd mem' content'" "ok \<longrightarrow> content' = ?body"
      "granted (grants (armed w url method payload headers)) \<longrightarrow> ok"
      by (auto simp: delivered_def)
    have tr: "trace w' = trace w @
        [Ev_easy_init (Suc (brk w)), Ev_perform (Suc (brk w)) ?req res,
         Ev_cleanup (Suc (brk w))]"
      and hs: "handles w' = handles w"
      and code: "res = (if ok then outcome (net ?req) else CURLE_WRITE_ERROR)"
      using r by (auto simp: result_of_def split: if_splits)
    have good: "res = CURLE_OK" if "granted (grants w)" "outcome (net ?req) = CURLE_OK"
      using that c(3) g1 code by simp
    have given: "ok \<and> response out' = data mem' \<and> response_len out' = size_f mem' \<and>
        blocks w' = blocks wd" if "res = CURLE_OK"
      using that r by (auto simp: result_of_def split: if_splits)
    have len: "response_len out' = of_nat (length ?body)" if "res = CURLE_OK"
    proof -
      have "unat (size_f mem') = length ?body"
        using c(1,2) given [OF that] by (simp add: holds_def)
      then have "of_nat (unat (size_f mem')) = (of_nat (length ?body) :: size_t)"
        by simp
      with given [OF that] show ?thesis
        by simp
    qed
    have blk: "\<exists>blk. blocks w' (response out') = Some blk \<and>
        take (length ?body) blk = map Some ?body"
      if "res = CURLE_OK" and "response out' \<noteq> NULL"
    proof -
      have nn: "data mem' \<noteq> NULL" and ok: "content' = ?body"
        using given [OF that(1)] that(2) c(2) by simp_all
      with c(1) obtain rest where
        "blocks wd = (blocks w)(data mem' \<mapsto> map Some ?body @ rest)"
        by (auto simp: holds_def)
      then have "blocks w' (response out') = Some (map Some ?body @ rest)"
        using given [OF that(1)] by simp
      then show ?thesis
        by simp
    qed
    have nonnull: "response out' \<noteq> NULL" if "res = CURLE_OK" and "\<not> refused (grants w)"
      using deliver_keeps_pointer [OF del] p0 [OF that(2)] given [OF that(1)] by simp
    have info: "curl_shim_getinfo_long w' h i = curl_shim_getinfo_long w h i" for h i
      by (simp add: curl_shim_getinfo_long_def curl_easy_getinfo_def hs)
    have again: "curl_shim_simple_request ?net w url method payload headers out =
        curl_shim_simple_request net w url method payload headers out"
    proof (rule request_outcome [where net = ?net and url = url and meth = "method"
          and out = out, OF init pay hdr fr fit'])
      fix rs' ok' mem'' wd'
      assume run': "curl_shim_simple_request ?net w url method payload headers out =
           Inr (result_of w out ?req (outcome (?net ?req)) ok' mem'' wd')"
        and del': "deliver (armed w url method payload headers) ?buf (chunks (?net ?req))
           = Inr (rs', ok', mem'', wd')"
      from del del' have "ok' = ok" "mem'' = mem'" "wd' = wd"
        by simp_all
      then show ?thesis
        by (simp add: run run')
    qed
    show ?thesis
      unfolding again unfolding run r
      using tr hs good len blk nonnull info
      by (intro exI [of _ res] exI [of _ out'] exI [of _ w']) blast
  qed
qed

theorem status_is_not_reported_witness:
  "\<not> refused (init_grants world0) \<and> c_string None \<and> header_list world0 NULL \<and> fresh world0 \<and>
   bounded (answer [[48, 49, 50, 51, 52], [53, 54, 55, 56, 57]] CURLE_OK 200) \<and>
   curl_shim_simple_request (\<lambda>r. (answer [[48, 49, 50, 51, 52], [53, 54, 55, 56, 57]] CURLE_OK 200 r)
         \<lparr>http_status := 500\<rparr>) world0 ''http://host/'' ''GET'' None NULL out0 =
     Inr (CURLE_OK, \<lparr>response = 4, response_len = 10\<rparr>,
          world0\<lparr>blocks := [4 \<mapsto> [Some 48, Some 49, Some 50, Some 51, Some 52, Some 53,
                                     Some 54, Some 55, Some 56, Some 57, Some 0]],
            brk := 4,
            trace := [Ev_easy_init 1,
                      Ev_perform 1 \<lparr>w_url = Some ''http://host/'', w_method = Some ''GET'',
                                     w_headers = [], w_body = None\<rparr> CURLE_OK,
                      Ev_cleanup 1]\<rparr>)"
proof -
  let ?net = "answer [[48, 49, 50, 51, 52], [53, 54, 55, 56, 57]] CURLE_OK 200"
  have h: "\<not> refused (init_grants world0)" "c_string None" "header_list world0 NULL"
    "fresh world0" "bounded ?net"
    by (simp_all add: refused_def c_string_def header_list_def fresh_def bounded_def
        world0_def answer_def)
  have run: "curl_shim_simple_request ?net world0 ''http://host/'' ''GET'' None NULL out0 =
     Inr (CURLE_OK, \<lparr>response = 4, response_len = 10\<rparr>,
          world0\<lparr>blocks := [4 \<mapsto> [Some 48, Some 49, Some 50, Some 51, Some 52, Some 53,
                                     Some 54, Some 55, Some 56, Some 57, Some 0]],
            brk := 4,
            trace := [Ev_easy_init 1,
                      Ev_perform 1 \<lparr>w_url = Some ''http://host/'', w_method = Some ''GET'',
                                     w_headers = [], w_body = None\<rparr> CURLE_OK,
                      Ev_cleanup 1]\<rparr>)"
    using request_steps [OF h(1), of None] by (simp add: run_defs numeral_2_eq_2 [symmetric])
  from status_is_not_reported [of world0 None NULL ?net "''http://host/''" "''GET''" out0 500,
      OF h]
  have "curl_shim_simple_request (\<lambda>r. (?net r)\<lparr>http_status := 500\<rparr>) world0
      ''http://host/'' ''GET'' None NULL out0 =
    curl_shim_simple_request ?net world0 ''http://host/'' ''GET'' None NULL out0"
    by (elim exE conjE)
  with h run show ?thesis
    by simp
qed

text \<open>
  The claim as stated fails in its last part. The same request answered with status
  500 and with status 200 (same 10-byte body) gives the same result and leaves the
  same world, in which the handle the call used (address 1 in the log) is no longer
  live: nothing the caller holds tells the two statuses apart.
\<close>

theorem status_from_handle_counterexample:
  "curl_shim_simple_request (answer [[48, 49, 50, 51, 52, 53, 54, 55, 56, 57]] CURLE_OK 500)
       world0 ''http://host/'' ''GET'' None NULL out0 =
     Inr (CURLE_OK, \<lparr>response = 3, response_len = 10\<rparr>,
          world0\<lparr>blocks := [3 \<mapsto> [Some 48, Some 49, Some 50, Some 51, Some 52, Some 53,
                                     Some 54, Some 55, Some 56, Some 57, Some 0]],
            brk := 3,
            trace := [Ev_easy_init 1,
                      Ev_perform 1 \<lparr>w_url = Some ''http://host/'', w_method = Some ''GET'',
                                     w_headers = [], w_body = None\<rparr> CURLE_OK,
                      Ev_cleanup 1]\<rparr>) \<and>
   curl_shim_simple_request (answer [[48, 49, 50, 51, 52, 53, 54, 55, 56, 57]] CURLE_OK 200)
       world0 ''http://host/'' ''GET'' None NULL out0 =
     Inr (CURLE_OK, \<lparr>response = 3, response_len = 10\<rparr>,
          world0\<lparr>blocks := [3 \<mapsto> [Some 48, Some 49, Some 50, Some 51, Some 52, Some 53,
                                     Some 54, Some 55, Some 56, Some 57, Some 0]],
            brk := 3,
            trace := [Ev_easy_init 1,
                      Ev_perform 1 \<lparr>w_url = Some ''http://host/'', w_method = Some ''GET'',
                                     w_headers = [], w_body = None\<rparr> CURLE_OK,
                      Ev_cleanup 1]\<rparr>) \<and>
   handles
       (world0\<lparr>blocks := [3 \<mapsto> [Some 48, Some 49, Some 50, Some 51, Some 52, Some 53,
                                     Some 54, Some 55, Some 56, Some 57, Some 0]],
            brk := 3,
            trace := [Ev_easy_init 1,
                      Ev_perform 1 \<lparr>w_url = Some ''http://host/'', w_method = Some ''GET'',
                                     w_headers = [], w_body = None\<rparr> CURLE_OK,
                      Ev_cleanup 1]\<rparr>) 1 = None"
proof -
  have i: "\<not> refused (init_grants world0)"
    by (simp add: refused_def world0_def)
  from request_steps [OF i, of None "answer [[48, 49, 50, 51, 52, 53, 54, 55, 56, 57]] CURLE_OK 500"]
    request_steps [OF i, of None "answer [[48, 49, 50, 51, 52, 53, 54, 55, 56, 57]] CURLE_OK 200"]
  show ?thesis
    by (simp add: run_defs numeral_2_eq_2 [symmetric])
qed

text \<open>
  C6. When the reallocation inside the sink is refused, the sink returns 0 without
  any fault, the accumulator (pointer and length) is what it was, and the heap
  still holds exactly the blocks it held, the old buffer among them.
\<close>

theorem write_cb_realloc_refused:
  assumes "realloc w (data mem) (unat (size_f mem + sz * nmemb + 1)) = Inr (NULL, w1)"
  shows "write_cb w ptr sz nmemb mem = Inr (0, mem, w1) \<and> blocks w1 = blocks w"
proof -
  have "blocks w1 = blocks w"
    using assms
    by (auto simp: realloc_def malloc_def split: if_splits option.splits)
  then show ?thesis
    using assms by (simp add: write_cb_def)
qed

theorem write_cb_realloc_refused_witness:
  "realloc (world0\<lparr>blocks := [1 \<mapsto> [None]], brk := 1, grants := [False]\<rparr>) 1
       (unat (0 + 1 * 1 + 1 :: size_t))
     = Inr (NULL, world0\<lparr>blocks := [1 \<mapsto> [None]], brk := 1, grants := []\<rparr>)
   \<and> write_cb (world0\<lparr>blocks := [1 \<mapsto> [None]], brk := 1, grants := [False]\<rparr>) [7] 1 1
       \<lparr>data = 1, size_f = 0\<rparr>
     = Inr (0, \<lparr>data = 1, size_f = 0\<rparr>, world0\<lparr>blocks := [1 \<mapsto> [None]], brk := 1, grants := []\<rparr>)
   \<and> blocks (world0\<lparr>blocks := [1 \<mapsto> [None]], brk := 1, grants := []\<rparr>) 1 = Some [None]"
proof -
  have r: "realloc (world0\<lparr>blocks := [1 \<mapsto> [None]], brk := 1, grants := [False]\<rparr>)
             (data \<lparr>data = 1, size_f = 0\<rparr>)
             (unat (size_f \<lparr>data = 1, size_f = 0\<rparr> + 1 * 1 + 1))
           = Inr (NULL, world0\<lparr>blocks := [1 \<mapsto> [None]], brk := 1, grants := []\<rparr>)"
    by (simp add: realloc_def refused_def world0_def)
  show ?thesis
    using r write_cb_realloc_refused [OF r, of "[7]"] by simp
qed

text \<open>
  C7. A zero-length chunk (\<open>size * nmemb = 0\<close> with one factor 0) on any accumulator the
  sink can be called on: the call returns 0, which is the chunk's length, so nothing
  is reported as failed, whether the reallocation is granted or refused; the recorded
  length is unchanged, the accumulator stays usable, and the bytes accumulated so
  far are the same (in a new block if the reallocation was granted).
\<close>

theorem sink_empty_chunk:
  assumes acc: "accumulator w mem" and z: "sz = 0 \<or> nmemb = 0"
  shows "\<exists>mem' w'.
           write_cb w ptr sz nmemb mem = Inr (0, mem', w') \<and>
           size_f mem' = size_f mem \<and> accumulator w' mem' \<and>
           (data mem = NULL \<or>
            (\<exists>blk blk'. blocks w (data mem) = Some blk \<and> blocks w' (data mem') = Some blk' \<and>
               take (unat (size_f mem)) blk' = take (unat (size_f mem)) blk))"
proof -
  have rs: "sz * nmemb = 0"
    using z by auto
  show ?thesis
  proof (cases "data mem = NULL")
    case True
    with acc have s0: "size_f mem = 0"
      by (simp add: accumulator_def)
    show ?thesis
    proof (cases "refused (grants w)")
      case True
      with \<open>data mem = NULL\<close> s0 acc show ?thesis
        by (simp add: write_cb_def rs realloc_def malloc_def accumulator_def)
    next
      case False
      with \<open>data mem = NULL\<close> s0 show ?thesis
        by (simp add: write_cb_def rs realloc_def malloc_def memcpy_def store_def
            accumulator_def)
    qed
  next
    case False
    with acc obtain old where old: "blocks w (data mem) = Some old"
      "unat (size_f mem) < length old" "length old < 2 ^ 64"
      by (auto simp: accumulator_def split: option.splits)
    let ?n = "unat (size_f mem)"
    have n1: "unat (size_f mem + 1) = ?n + 1"
      using unat_grow(1) [of "size_f mem" 0] old(2,3) by simp
    show ?thesis
    proof (cases "refused (grants w)")
      case True
      with False old acc show ?thesis
        by (simp add: write_cb_def rs realloc_def n1 accumulator_def)
    next
      case granted: False
      let ?a = "Suc (brk w)"
      let ?blk = "take (?n + 1) old"
      let ?w1 = "w\<lparr>blocks := ((blocks w)(data mem := None))(?a \<mapsto> ?blk),
                    brk := ?a, grants := tl (grants w)\<rparr>"
      let ?w3 = "w\<lparr>blocks := ((blocks w)(data mem := None))(?a \<mapsto> ?blk[?n := Some 0]),
                    brk := ?a, grants := tl (grants w)\<rparr>"
      have re: "realloc w (data mem) (?n + 1) = Inr (?a, ?w1)"
        using False old granted by (simp add: realloc_def)
      have glue: "take ?n old @ drop ?n (take (Suc ?n) old) = take (Suc ?n) old"
        using append_take_drop_id [of ?n "take (Suc ?n) old"] by (simp add: min_def)
      have cp: "memcpy ?w1 ?a ?n ptr 0 = Inr ?w1"
        using old(2) by (simp add: memcpy_def glue)
      have st: "store ?w1 ?a ?n 0 = Inr ?w3"
        using old(2) by (simp add: store_def)
      have run: "write_cb w ptr sz nmemb mem = Inr (0, mem\<lparr>data := ?a\<rparr>, ?w3)"
        using re cp st by (simp add: write_cb_def rs n1 Let_def)
      have same: "take ?n (?blk[?n := Some 0]) = take ?n old"
        by simp
      have "accumulator ?w3 (mem\<lparr>data := ?a\<rparr>)"
        using old(2,3) by (simp add: accumulator_def)
      with run same old(1) show ?thesis
        by simp
    qed
  qed
qed

theorem sink_empty_chunk_witness:
  "accumulator (world0\<lparr>blocks := [1 \<mapsto> [Some 5, Some 6, Some 0]], brk := 1\<rparr>)
     \<lparr>data = 1, size_f = 2\<rparr> \<and>
   write_cb (world0\<lparr>blocks := [1 \<mapsto> [Some 5, Some 6, Some 0]], brk := 1\<rparr>) [] 1 0
       \<lparr>data = 1, size_f = 2\<rparr> =
     Inr (0, \<lparr>data = 2, size_f = 2\<rparr>,
          world0\<lparr>blocks := [2 \<mapsto> [Some 5, Some 6, Some 0]], brk := 2\<rparr>)"
proof -
  have a: "accumulator (world0\<lparr>blocks := [1 \<mapsto> [Some 5, Some 6, Some 0]], brk := 1\<rparr>)
     \<lparr>data = 1, size_f = 2\<rparr>"
    by (simp add: accumulator_def world0_def)
  have run: "write_cb (world0\<lparr>blocks := [1 \<mapsto> [Some 5, Some 6, Some 0]], brk := 1\<rparr>) [] 1 0
       \<lparr>data = 1, size_f = 2\<rparr> =
     Inr (0, \<lparr>data = 2, size_f = 2\<rparr>,
          world0\<lparr>blocks := [2 \<mapsto> [Some 5, Some 6, Some 0]], brk := 2\<rparr>)"
    by (simp add: world0_def write_cb_def realloc_def memcpy_def store_def refused_def Let_def
        numeral_2_eq_2 [symmetric])
  show ?thesis
    using a run sink_empty_chunk [OF a, of 1 0 "[]"] by simp
qed

text \<open>
  C8 fails when \<open>malloc(1)\<close> is refused: its result is not checked (as the results of
  \<open>curl_easy_init\<close> and \<open>realloc\<close> are), the accumulator starts with a null pointer, and
  a successful exchange without body hands that null pointer to the caller.
\<close>

theorem unchecked_malloc_null_buffer:
  "curl_shim_simple_request (answer [] CURLE_OK 200) (world0\<lparr>grants := [False]\<rparr>)
       ''http://host/'' ''GET'' None NULL out0 =
     Inr (CURLE_OK, \<lparr>response = NULL, response_len = 0\<rparr>,
          world0\<lparr>brk := 1,
            trace := [Ev_easy_init 1,
                      Ev_perform 1 \<lparr>w_url = Some ''http://host/'', w_method = Some ''GET'',
                                     w_headers = [], w_body = None\<rparr> CURLE_OK,
                      Ev_cleanup 1]\<rparr>)"
proof -
  have "\<not> refused (init_grants (world0\<lparr>grants := [False]\<rparr>))"
    by (simp add: refused_def world0_def)
  from request_steps [OF this, of None] show ?thesis
    by (simp add: run_defs)
qed

text \<open>
  C9. When the handle cannot be acquired the call returns \<open>CURLE_FAILED_INIT\<close> at once:
  the caller's variables are untouched, and of the world only the acquisition
  attempt itself shows (its outcome is consumed and the call is logged). The heap,
  the allocator's coming outcomes, the handles and the header lists are what they
  were: nothing was allocated, configured or performed.
\<close>

theorem init_failure_returns_at_once:
  assumes "refused (init_grants w)"
  shows "curl_shim_simple_request net w url method payload headers out =
           Inr (CURLE_FAILED_INIT, out,
                w\<lparr>init_grants := tl (init_grants w), trace := trace w @ [Ev_easy_init NULL]\<rparr>)"
  using assms by (simp add: curl_shim_simple_request_def curl_easy_init_def)

theorem init_failure_returns_at_once_witness:
  "refused (init_grants (world0\<lparr>init_grants := [False]\<rparr>)) \<and>
   curl_shim_simple_request (answer [[1, 2]] CURLE_OK 200) (world0\<lparr>init_grants := [False]\<rparr>)
       ''http://host/'' ''POST'' (Some [97, 0]) NULL out0 =
     Inr (CURLE_FAILED_INIT, out0, world0\<lparr>init_grants := [], trace := [Ev_easy_init NULL]\<rparr>)"
proof -
  have r: "refused (init_grants (world0\<lparr>init_grants := [False]\<rparr>))"
    by (simp add: refused_def)
  show ?thesis
    using r init_failure_returns_at_once [OF r, of "answer [[1, 2]] CURLE_OK 200"
        "''http://host/''" "''POST''" "Some [97, 0]" NULL out0]
    by (simp add: world0_def)
qed

text \<open>
  What holds of an empty successful response when \<open>malloc(1)\<close> is granted: the pointer
  returned is that allocation, the length is 0, and the one byte was never written.
\<close>

lemma empty_response_unwritten:
  assumes init: "\<not> refused (init_grants w)" and pay: "c_string payload"
    and hdr: "header_list w headers" and fr: "fresh w"
    and none: "chunks (net (request_of w url method payload headers)) = []"
    and ok: "outcome (net (request_of w url method payload headers)) = CURLE_OK"
    and got: "\<not> refused (grants w)"
  shows "\<exists>w'.
           curl_shim_simple_request net w url method payload headers out =
             Inr (CURLE_OK, out\<lparr>response := Suc (Suc (brk w)), response_len := 0\<rparr>, w') \<and>
           blocks w' = (blocks w)(Suc (Suc (brk w)) \<mapsto> [None])"
proof -
  have fit: "sum_list (map length (chunks (net (request_of w url method payload headers)))) + 1
      < 2 ^ 64"
    by (simp add: none)
  show ?thesis
  proof (rule request_outcome [where net = net and url = url and meth = "method"
        and out = out, OF init pay hdr fr fit])
    fix rs ok mem' wd
    assume run: "curl_shim_simple_request net w url method payload headers out =
         Inr (result_of w out (request_of w url method payload headers)
                (outcome (net (request_of w url method payload headers))) ok mem' wd)"
      and del: "deliver (armed w url method payload headers)
         \<lparr>data = fst (malloc (snd (curl_easy_init w)) 1), size_f = 0\<rparr>
         (chunks (net (request_of w url method payload headers)))
       = Inr (rs, ok, mem', wd)"
    have same: "ok" "mem' = \<lparr>data = fst (malloc (snd (curl_easy_init w)) 1), size_f = 0\<rparr>"
      "wd = armed w url method payload headers"
      using del by (simp_all add: none)
    have one: "fst (malloc (snd (curl_easy_init w)) 1) = Suc (Suc (brk w))"
      "blocks (armed w url method payload headers) = (blocks w)(Suc (Suc (brk w)) \<mapsto> [None])"
      using got init by (simp_all add: armed_def curl_easy_init_def malloc_def)
    show ?thesis
      unfolding run using one by (simp add: result_of_def same ok)
  qed
qed

text \<open>
  C10 fails where C8 does, by the same unchecked \<open>malloc(1)\<close>: with that allocation
  refused, a successful exchange in which the sink is never called returns
  \<open>CURLE_OK\<close> and length 0 with a null pointer, and the heap holds no block at all, so
  the returned buffer is not the one-byte allocation.
\<close>

theorem empty_response_null_pointer:
  "curl_shim_simple_request (answer [] CURLE_OK 204) (world0\<lparr>grants := [False]\<rparr>)
       ''http://host/item'' ''DELETE'' None NULL out0 =
     Inr (CURLE_OK, \<lparr>response = NULL, response_len = 0\<rparr>,
          world0\<lparr>brk := 1,
            trace := [Ev_easy_init 1,
                      Ev_perform 1 \<lparr>w_url = Some ''http://host/item'',
                                     w_method = Some ''DELETE'',
                                     w_headers = [], w_body = None\<rparr> CURLE_OK,
                      Ev_cleanup 1]\<rparr>) \<and>
   blocks (world0\<lparr>brk := 1,
            trace := [Ev_easy_init 1,
                      Ev_perform 1 \<lparr>w_url = Some ''http://host/item'',
                                     w_method = Some ''DELETE'',
                                     w_headers = [], w_body = None\<rparr> CURLE_OK,
                      Ev_cleanup 1]\<rparr>) = Map.empty"
proof -
  have "\<not> refused (init_grants (world0\<lparr>grants := [False]\<rparr>))"
    by (simp add: refused_def world0_def)
  from request_steps [OF this, of None] show ?thesis
    by (simp add: run_defs)
qed

end
